theory Spec2Isabelle
  imports Main
begin

section \<open>Python values and exceptions\<close>

text \<open>
  A Python \<^verbatim>\<open>str\<close> is a sequence of code points. \<open>lit\<close> gives the \<^verbatim>\<open>str\<close> of a
  literal of the source. The code points from D800 to DFFF (55296 to 57343) are the
  surrogates: a \<^verbatim>\<open>str\<close> can hold one on its own (\<^verbatim>\<open>json.load\<close> decodes the escape
  \<^verbatim>\<open>"\ud800"\<close> to such a \<^verbatim>\<open>str\<close>), but UTF-8 cannot encode it.
\<close>

type_synonym pystr = "nat list"

definition lit :: "string \<Rightarrow> pystr" where
  "lit s = map of_char s"

definition surrogate :: "nat \<Rightarrow> bool" where
  "surrogate c = (55296 \<le> c \<and> c \<le> 57343)"

definition encodable :: "pystr \<Rightarrow> bool" where
  "encodable s = list_all (\<lambda>c. \<not> surrogate c) s"

text \<open>
  The catalogue of \<^verbatim>\<open>models.py\<close> stores whatever \<^verbatim>\<open>json.load\<close> and
  \<^verbatim>\<open>response.json()\<close> hand it, so a field of a book is a decoded JSON value and not
  always a string. \<open>pyval\<close> is the type of these values: \<^verbatim>\<open>None\<close>, booleans,
  integers, strings, lists and dictionaries with string keys (an association list that is
  read with \<open>map_of\<close>). Numbers with a fraction are left out.

  The comparison \<^verbatim>\<open>book.isbn == isbn\<close> is modelled by equality of \<open>pyval\<close>. This is
  Python's \<^verbatim>\<open>==\<close> whenever one of the two sides is a string, which is what the annotated
  interface (\<^verbatim>\<open>isbn: str\<close>) passes; between two values that are not strings Python
  also identifies \<^verbatim>\<open>True\<close> with \<^verbatim>\<open>1\<close>, which this equality does not. The statements
  about \<open>add_book\<close>, \<open>remove_book\<close> and \<open>find_book\<close> below are therefore made for
  ISBNs that are strings.
\<close>

datatype pyval =
    PNone
  | PBool bool
  | PInt int
  | PStr pystr
  | PList "pyval list"
  | PDict "(pystr \<times> pyval) list"

text \<open>
  The exceptions that can reach the code. \<open>ValueError\<close> and \<open>ConnectionError\<close> carry the
  message the source builds:
  \<^item> \<open>AlreadyExists i\<close>: \<^verbatim>\<open>f"Book with ISBN {isbn} already exists"\<close>;
  \<^item> \<open>NotFound i\<close>: \<^verbatim>\<open>f"Book with ISBN {isbn} not found"\<close>;
  \<^item> \<open>InvalidFormat\<close>: \<^verbatim>\<open>"Invalid response format from Open Library API"\<close>;
  \<^item> \<open>TimedOut\<close>: \<^verbatim>\<open>"Request timed out while fetching book information"\<close>;
  \<^item> \<open>ConnectFailed\<close>: \<^verbatim>\<open>"Failed to connect to Open Library API"\<close>;
  \<^item> \<open>HTTPError c\<close>: \<^verbatim>\<open>f"HTTP error occurred: {e.response.status_code}"\<close>;
  \<^item> \<open>Unexpected\<close>: \<^verbatim>\<open>f"Unexpected error occurred: {e}"\<close>.
  \<open>DigitLimit\<close> is the \<open>ValueError\<close> of the interpreter for an integer literal with more
  digits than it converts. \<open>IOError\<close> is the one \<^verbatim>\<open>save_books\<close> raises.
  \<open>UnicodeDecodeError\<close> and \<open>UnicodeEncodeError\<close> are subclasses of \<^verbatim>\<open>ValueError\<close>,
  \<open>JSONDecodeError\<close> is one too, and \<open>FileNotFoundError\<close> is an \<^verbatim>\<open>OSError\<close>.
  \<open>OtherException\<close> stands for any exception of the HTTP client that is none of the
  classes the source names.
\<close>

datatype value_msg = AlreadyExists pyval | NotFound pystr | InvalidFormat | DigitLimit

datatype conn_msg = TimedOut | ConnectFailed | HTTPError nat | Unexpected

datatype exn =
    KeyError
  | TypeError
  | AttributeError
  | JSONDecodeError
  | UnicodeDecodeError
  | UnicodeEncodeError
  | RecursionError
  | FileNotFoundError
  | TimeoutException
  | ConnectError
  | HTTPStatusError nat
  | OtherException
  | ValueError value_msg
  | ConnectionError conn_msg
  | IOError

text \<open>
  What a text (the backing file, the body of a response) is to the code that reads and
  decodes it:
  \<^item> \<open>JSON v\<close>: a JSON document, which \<^verbatim>\<open>json.load\<close> decodes to the value \<open>v\<close>;
  \<^item> \<open>NotJSON\<close>: a text that can be read and is no JSON document, on which
    \<^verbatim>\<open>json.load\<close> raises \<^verbatim>\<open>json.JSONDecodeError\<close>;
  \<^item> \<open>Unreadable e\<close>: a text on which reading or decoding raises another exception \<open>e\<close>:
    \<open>UnicodeDecodeError\<close> for bytes that are not UTF-8, \<open>RecursionError\<close> for brackets
    nested deeper than the decoder goes, \<open>ValueError DigitLimit\<close> for an integer literal
    that is too long, an \<^verbatim>\<open>OSError\<close> of the file system.
  A file is such a text or does not exist (\<open>None\<close>).
\<close>

datatype content = NotJSON | JSON pyval | Unreadable exn

type_synonym backing_file = "content option"

text \<open>Sequencing of computations that may raise: the first exception ends the run.\<close>

definition and_then :: "exn + 'a \<Rightarrow> ('a \<Rightarrow> exn + 'b) \<Rightarrow> exn + 'b" where
  "and_then r f = (case r of Inl e \<Rightarrow> Inl e | Inr x \<Rightarrow> f x)"

text \<open>
  \<^verbatim>\<open>for x in v\<close>: a list yields its elements, a dictionary its keys, a string its
  characters; the other values are not iterable.
\<close>

fun py_iter :: "pyval \<Rightarrow> exn + pyval list" where
  "py_iter (PList xs) = Inr xs"
| "py_iter (PDict kvs) = Inr (map (\<lambda>kv. PStr (fst kv)) kvs)"
| "py_iter (PStr s) = Inr (map (\<lambda>c. PStr [c]) s)"
| "py_iter _ = Inl TypeError"

text \<open>\<^verbatim>\<open>v[k]\<close> with a string \<open>k\<close>: only a dictionary can be subscripted by a string.\<close>

fun py_getitem :: "pyval \<Rightarrow> pystr \<Rightarrow> exn + pyval" where
  "py_getitem (PDict kvs) k = (case map_of kvs k of None \<Rightarrow> Inl KeyError | Some v \<Rightarrow> Inr v)"
| "py_getitem _ k = Inl TypeError"

text \<open>\<^verbatim>\<open>v.get(k, default)\<close>: only a dictionary has the method.\<close>

fun py_get :: "pyval \<Rightarrow> pystr \<Rightarrow> pyval \<Rightarrow> exn + pyval" where
  "py_get (PDict kvs) k dflt = (case map_of kvs k of None \<Rightarrow> Inr dflt | Some v \<Rightarrow> Inr v)"
| "py_get _ k dflt = Inl AttributeError"

text \<open>\<^verbatim>\<open>sep.join(vs)\<close>: raises \<^verbatim>\<open>TypeError\<close> unless every item is a string.\<close>

fun is_str :: "pyval \<Rightarrow> bool" where
  "is_str (PStr s) = True"
| "is_str _ = False"

fun the_str :: "pyval \<Rightarrow> pystr" where
  "the_str (PStr s) = s"
| "the_str _ = []"

fun join :: "pystr \<Rightarrow> pystr list \<Rightarrow> pystr" where
  "join sep [] = []"
| "join sep [s] = s"
| "join sep (s # t # ss) = s @ sep @ join sep (t # ss)"

definition py_join :: "pystr \<Rightarrow> pyval list \<Rightarrow> exn + pyval" where
  "py_join sep vs =
     (if list_all is_str vs then Inr (PStr (join sep (map the_str vs))) else Inl TypeError)"

section \<open>Book\<close>

record book =
  title :: pyval
  author :: pyval
  isbn :: pyval

definition Book :: "pyval \<Rightarrow> pyval \<Rightarrow> pyval \<Rightarrow> book" where
  "Book t a i = \<lparr>title = t, author = a, isbn = i\<rparr>"

definition to_dict :: "book \<Rightarrow> pyval" where
  "to_dict b =
     PDict [(lit ''title'', title b), (lit ''author'', author b), (lit ''isbn'', isbn b)]"

section \<open>Library\<close>

text \<open>
  The state an operation of \<^verbatim>\<open>Library\<close> reads and writes: the list \<^verbatim>\<open>self.books\<close>
  and the file named \<^verbatim>\<open>self.filename\<close> (\<open>backing\<close>). An operation returns its result, or the exception
  it raises, together with the state it leaves: an exception does not undo what was done
  before it.
\<close>

record library =
  books :: "book list"
  backing :: backing_file

text \<open>
  What the file system will do at the next write of the file: let it through, or make
  \<^verbatim>\<open>open(..., 'w')\<close> raise, or let the file be opened (and so truncated) and make the
  write raise before the document is complete.
\<close>

datatype disk = Writable | OpenFails | WriteFails

fun find_book :: "book list \<Rightarrow> pyval \<Rightarrow> book option" where
  "find_book [] i = None"
| "find_book (b # bs) i = (if isbn b = i then Some b else find_book bs i)"

text \<open>
  \<^verbatim>\<open>json.dump([book.to_dict() for book in self.books], file, indent=2,
  ensure_ascii=False)\<close> into a file opened with \<^verbatim>\<open>encoding='utf-8'\<close>. With
  \<^verbatim>\<open>ensure_ascii=False\<close> the strings are written as they are, so the write raises
  \<^verbatim>\<open>UnicodeEncodeError\<close> at the first string, key or value, that holds a surrogate.
  \<open>str_ok v\<close> says that no string of \<open>v\<close> does, and \<open>encodes bs\<close> that the whole list of
  dictionaries can be written. (The depth of nesting that the encoder's recursion allows
  is not modelled; it cannot be reached by fields that are strings.)
\<close>

fun str_ok :: "pyval \<Rightarrow> bool" where
  "str_ok (PStr s) = encodable s"
| "str_ok (PList xs) = list_all str_ok xs"
| "str_ok (PDict kvs) = list_all (\<lambda>kv. encodable (fst kv) \<and> str_ok (snd kv)) kvs"
| "str_ok _ = True"

definition encodes :: "book list \<Rightarrow> bool" where
  "encodes bs = list_all (\<lambda>b. str_ok (to_dict b)) bs"

text \<open>
  The document that a complete write leaves, given by the value that \<^verbatim>\<open>json.load\<close>
  decodes from it: for values whose strings can be encoded, decoding what \<^verbatim>\<open>json.dump\<close>
  wrote gives the value back.
\<close>

definition dump :: "book list \<Rightarrow> content" where
  "dump bs = JSON (PList (map to_dict bs))"

text \<open>
  \<open>save_books\<close>. If \<^verbatim>\<open>open\<close> raises (an \<^verbatim>\<open>OSError\<close>, caught and raised again as
  \<^verbatim>\<open>IOError\<close>) the file is as before. Once the file is open it is truncated; a string
  that cannot be encoded raises \<^verbatim>\<open>UnicodeEncodeError\<close>, which is no \<^verbatim>\<open>IOError\<close> and
  leaves the function as it is, and a failing write raises \<^verbatim>\<open>IOError\<close>; both leave the
  beginning of a document, which is no JSON document. (When a string cannot be encoded
  and the file system fails too, the error that comes first is taken to be the encoding
  error; no statement below depends on this.)
\<close>

definition save_books :: "disk \<Rightarrow> library \<Rightarrow> (exn + unit) \<times> library" where
  "save_books d lib =
     (if d = OpenFails then (Inl IOError, lib)
      else if \<not> encodes (books lib) then (Inl UnicodeEncodeError, lib\<lparr>backing := Some NotJSON\<rparr>)
      else if d = WriteFails then (Inl IOError, lib\<lparr>backing := Some NotJSON\<rparr>)
      else (Inr (), lib\<lparr>backing := Some (dump (books lib))\<rparr>))"

definition add_book :: "disk \<Rightarrow> library \<Rightarrow> book \<Rightarrow> (exn + unit) \<times> library" where
  "add_book d lib b =
     (if find_book (books lib) (isbn b) \<noteq> None
      then (Inl (ValueError (AlreadyExists (isbn b))), lib)
      else save_books d (lib\<lparr>books := books lib @ [b]\<rparr>))"

text \<open>\<^verbatim>\<open>xs.pop(i)\<close> for an index in range.\<close>

definition pop :: "nat \<Rightarrow> 'a list \<Rightarrow> 'a list" where
  "pop i xs = take i xs @ drop (Suc i) xs"

text \<open>
  The loop of \<^verbatim>\<open>remove_book\<close>, from index \<open>i\<close> on. At the first record with the ISBN
  its body runs \<^verbatim>\<open>self.books.pop(i)\<close>, \<^verbatim>\<open>self.save_books()\<close> and
  \<^verbatim>\<open>return True\<close> (\<open>pop_save\<close>); an exception of the save leaves the record popped.
\<close>

definition pop_save :: "disk \<Rightarrow> library \<Rightarrow> nat \<Rightarrow> (exn + bool) \<times> library" where
  "pop_save d lib i =
     (case save_books d (lib\<lparr>books := pop i (books lib)\<rparr>) of
        (Inl e, lib') \<Rightarrow> (Inl e, lib')
      | (Inr u, lib') \<Rightarrow> (Inr True, lib'))"

function remove_from :: "disk \<Rightarrow> library \<Rightarrow> pyval \<Rightarrow> nat \<Rightarrow> (exn + bool) \<times> library" where
  "remove_from d lib k i =
     (if i < length (books lib)
      then (if isbn (books lib ! i) = k then pop_save d lib i
            else remove_from d lib k (Suc i))
      else (Inr False, lib))"
  by pat_completeness auto
termination
  by (relation "measure (\<lambda>(d, lib, k, i). length (books lib) - i)") auto

definition remove_book :: "disk \<Rightarrow> library \<Rightarrow> pyval \<Rightarrow> (exn + bool) \<times> library" where
  "remove_book d lib k = remove_from d lib k 0"

text \<open>
  \<^verbatim>\<open>list_books\<close> as a value: the records in order. What sharing the copy has with the
  catalogue is the subject of the last section, on a store of objects.
\<close>

definition list_books :: "library \<Rightarrow> book list" where
  "list_books lib = books lib"

text \<open>
  \<^verbatim>\<open>Book(book_data['title'], book_data['author'], book_data['isbn'])\<close> and the list
  comprehension around it.
\<close>

definition load_record :: "pyval \<Rightarrow> exn + book" where
  "load_record d =
     and_then (py_getitem d (lit ''title'')) (\<lambda>t.
     and_then (py_getitem d (lit ''author'')) (\<lambda>a.
     and_then (py_getitem d (lit ''isbn'')) (\<lambda>i. Inr (Book t a i))))"

fun load_records :: "pyval list \<Rightarrow> exn + book list" where
  "load_records [] = Inr []"
| "load_records (d # ds) =
     and_then (load_record d) (\<lambda>b. and_then (load_records ds) (\<lambda>bs. Inr (b # bs)))"

definition parse :: "content \<Rightarrow> exn + pyval" where
  "parse c =
     (case c of NotJSON \<Rightarrow> Inl JSONDecodeError | JSON v \<Rightarrow> Inr v | Unreadable e \<Rightarrow> Inl e)"

text \<open>
  \<^verbatim>\<open>load_books\<close>: a missing file gives the empty catalogue; \<^verbatim>\<open>JSONDecodeError\<close>,
  \<^verbatim>\<open>KeyError\<close> and \<^verbatim>\<open>FileNotFoundError\<close> are caught and give the empty catalogue;
  any other exception leaves the function.
\<close>

definition load_books :: "library \<Rightarrow> (exn + unit) \<times> library" where
  "load_books lib =
     (case backing lib of
        None \<Rightarrow> (Inr (), lib\<lparr>books := []\<rparr>)
      | Some c \<Rightarrow>
          (case and_then (parse c) (\<lambda>data. and_then (py_iter data) load_records) of
             Inr bs \<Rightarrow> (Inr (), lib\<lparr>books := bs\<rparr>)
           | Inl e \<Rightarrow>
               if e = JSONDecodeError \<or> e = KeyError \<or> e = FileNotFoundError
               then (Inr (), lib\<lparr>books := []\<rparr>)
               else (Inl e, lib)))"

text \<open>\<^verbatim>\<open>Library(filename)\<close>: the constructor sets \<^verbatim>\<open>self.books = []\<close> and loads.\<close>

definition new_library :: "backing_file \<Rightarrow> (exn + unit) \<times> library" where
  "new_library f = load_books \<lparr>books = [], backing = f\<rparr>"

section \<open>Lookup by ISBN\<close>

text \<open>
  The remote service, as the client sees it: a request raises an exception of the HTTP
  client, or returns a response with a status code and a body. \<open>book_get r i\<close> answers
  \<^verbatim>\<open>client.get(f"https://openlibrary.org/isbn/{i}.json")\<close> and \<open>author_get r k\<close> answers
  \<^verbatim>\<open>client.get(f"https://openlibrary.org{k}.json")\<close> for the value \<open>k\<close> found under
  \<^verbatim>\<open>'key'\<close>.
\<close>

datatype reply = Raises exn | Response nat content

record remote =
  book_get :: "pystr \<Rightarrow> reply"
  author_get :: "pyval \<Rightarrow> reply"

text \<open>\<^verbatim>\<open>response.raise_for_status()\<close> raises unless the status is a 2xx.\<close>

definition is_success :: "nat \<Rightarrow> bool" where
  "is_success s = (200 \<le> s \<and> s \<le> 299)"

text \<open>
  The loop over \<^verbatim>\<open>book_data['authors']\<close>, with the list \<^verbatim>\<open>authors\<close> collected so far.
\<close>

fun collect :: "remote \<Rightarrow> pyval list \<Rightarrow> pyval list \<Rightarrow> exn + pyval list" where
  "collect r authors [] = Inr authors"
| "collect r authors (author_ref # refs) =
     (case author_ref of
        PDict kvs \<Rightarrow>
          (case map_of kvs (lit ''key'') of
             None \<Rightarrow> collect r authors refs
           | Some k \<Rightarrow>
               (case author_get r k of
                  Raises e \<Rightarrow> Inl e
                | Response s body \<Rightarrow>
                    if s = 200
                    then (case and_then (parse body)
                                 (\<lambda>author_data.
                                    py_get author_data (lit ''name'')
                                      (PStr (lit ''Unknown Author''))) of
                            Inl e \<Rightarrow> Inl e
                          | Inr n \<Rightarrow> collect r (authors @ [n]) refs)
                    else collect r authors refs))
      | _ \<Rightarrow> collect r authors refs)"

text \<open>
  From the decoded body of the book response to the \<^verbatim>\<open>Book\<close>. A body that is no
  dictionary has no \<^verbatim>\<open>get\<close>.
\<close>

fun resolve :: "remote \<Rightarrow> pystr \<Rightarrow> pyval \<Rightarrow> exn + book" where
  "resolve r i (PDict kvs) =
     and_then (py_get (PDict kvs) (lit ''title'') (PStr (lit ''Unknown Title''))) (\<lambda>t.
     and_then (case map_of kvs (lit ''authors'') of
                 None \<Rightarrow> Inr []
               | Some refs \<Rightarrow> and_then (py_iter refs) (collect r [])) (\<lambda>authors.
     and_then (py_join (lit '', '')
                 (if authors = [] then [PStr (lit ''Unknown Author'')] else authors)) (\<lambda>a.
     Inr (Book t a (PStr i)))))"
| "resolve r i _ = Inl AttributeError"

text \<open>The body of the \<^verbatim>\<open>try\<close> block up to the construction of the book.\<close>

definition fetch :: "remote \<Rightarrow> pystr \<Rightarrow> exn + book" where
  "fetch r i =
     (case book_get r i of
        Raises e \<Rightarrow> Inl e
      | Response s body \<Rightarrow>
          if s = 404 then Inl (ValueError (NotFound i))
          else if \<not> is_success s then Inl (HTTPStatusError s)
          else and_then (parse body) (resolve r i))"

text \<open>
  The \<^verbatim>\<open>except\<close> clauses of \<^verbatim>\<open>add_book_by_isbn\<close>, in their order. The clause
  \<^verbatim>\<open>except ValueError: raise\<close> also lets the subclasses of \<^verbatim>\<open>ValueError\<close> through
  that the clauses before it do not name.
\<close>

fun translate :: "pystr \<Rightarrow> exn \<Rightarrow> exn" where
  "translate i TimeoutException = ConnectionError TimedOut"
| "translate i ConnectError = ConnectionError ConnectFailed"
| "translate i (HTTPStatusError c) =
     (if c = 404 then ValueError (NotFound i) else ConnectionError (HTTPError c))"
| "translate i JSONDecodeError = ValueError InvalidFormat"
| "translate i (ValueError m) = ValueError m"
| "translate i UnicodeDecodeError = UnicodeDecodeError"
| "translate i UnicodeEncodeError = UnicodeEncodeError"
| "translate i _ = ConnectionError Unexpected"

definition add_book_by_isbn ::
  "disk \<Rightarrow> remote \<Rightarrow> library \<Rightarrow> pystr \<Rightarrow> (exn + book) \<times> library" where
  "add_book_by_isbn d r lib i =
     (if find_book (books lib) (PStr i) \<noteq> None
      then (Inl (ValueError (AlreadyExists (PStr i))), lib)
      else (case fetch r i of
              Inl e \<Rightarrow> (Inl (translate i e), lib)
            | Inr b \<Rightarrow>
                (case add_book d lib b of
                   (Inl e, lib') \<Rightarrow> (Inl (translate i e), lib')
                 | (Inr u, lib') \<Rightarrow> (Inr b, lib'))))"

section \<open>Sequences of operations\<close>

text \<open>No two records of the catalogue have the same ISBN.\<close>

definition unique_isbns :: "book list \<Rightarrow> bool" where
  "unique_isbns bs = distinct (map isbn bs)"




section \<open>Objects and references\<close>

text \<open>
  \<^verbatim>\<open>list_books\<close> returns \<^verbatim>\<open>self.books.copy()\<close>: a new list object whose items are the
  \<^verbatim>\<open>Book\<close> objects of the catalogue themselves. What a caller can change through the
  result depends on this sharing, so here the objects live in a store: an object is a
  \<^verbatim>\<open>Book\<close> or a list of references, the object at address \<open>a\<close> is \<open>h ! a\<close>, and a new
  object is put at the end of the store. A catalogue is given by the address \<open>l\<close> of its
  list \<^verbatim>\<open>self.books\<close>.
\<close>

type_synonym ref = nat

datatype obj = BookObj book | ListObj "ref list"

type_synonym store = "obj list"

definition alloc :: "store \<Rightarrow> obj \<Rightarrow> ref \<times> store" where
  "alloc h x = (length h, h @ [x])"

definition items :: "store \<Rightarrow> ref \<Rightarrow> ref list" where
  "items h l =
     (if l < length h then (case h ! l of ListObj rs \<Rightarrow> rs | BookObj b \<Rightarrow> []) else [])"

definition book_at :: "store \<Rightarrow> ref \<Rightarrow> book option" where
  "book_at h a =
     (if a < length h then (case h ! a of BookObj b \<Rightarrow> Some b | ListObj rs \<Rightarrow> None) else None)"

definition list_books_ref :: "store \<Rightarrow> ref \<Rightarrow> ref \<times> store" where
  "list_books_ref h l = alloc h (ListObj (items h l))"

text \<open>\<^verbatim>\<open>find_book\<close> returns the object it finds, that is, a reference to it.\<close>

fun find_in :: "store \<Rightarrow> ref list \<Rightarrow> pyval \<Rightarrow> ref option" where
  "find_in h [] i = None"
| "find_in h (a # as) i =
     (case book_at h a of
        Some b \<Rightarrow> if isbn b = i then Some a else find_in h as i
      | None \<Rightarrow> find_in h as i)"

definition find_book_ref :: "store \<Rightarrow> ref \<Rightarrow> pyval \<Rightarrow> ref option" where
  "find_book_ref h l i = find_in h (items h l) i"

text \<open>
  The records a list object shows, in order: what the caller of a listing reads. In a
  store built by the program every item of such a list is a \<^verbatim>\<open>Book\<close>; an item that is
  not one is passed over, here and in \<open>find_in\<close>.
\<close>

definition records :: "store \<Rightarrow> ref \<Rightarrow> book list" where
  "records h l = List.map_filter (book_at h) (items h l)"

text \<open>
  What a caller can do with a list \<^verbatim>\<open>xs\<close> it holds: change the list itself
  (\<^verbatim>\<open>xs.clear()\<close>, \<^verbatim>\<open>xs.append(a)\<close>, \<^verbatim>\<open>xs.pop(n)\<close>, \<^verbatim>\<open>xs[n] = a\<close>), or assign to a
  field of one of its items (\<^verbatim>\<open>xs[n].title = v\<close> and the like). An index out of range
  raises \<^verbatim>\<open>IndexError\<close> and changes nothing.
\<close>

datatype mutation =
    Clear
  | Append ref
  | Pop nat
  | SetItem nat ref
  | SetTitle nat pyval
  | SetAuthor nat pyval
  | SetIsbn nat pyval

fun on_list :: "mutation \<Rightarrow> bool" where
  "on_list Clear = True"
| "on_list (Append a) = True"
| "on_list (Pop n) = True"
| "on_list (SetItem n a) = True"
| "on_list _ = False"

definition set_items :: "store \<Rightarrow> ref \<Rightarrow> ref list \<Rightarrow> store" where
  "set_items h x rs =
     (if x < length h
      then (case h ! x of ListObj old \<Rightarrow> h[x := ListObj rs] | BookObj b \<Rightarrow> h)
      else h)"

definition update_book :: "store \<Rightarrow> ref \<Rightarrow> (book \<Rightarrow> book) \<Rightarrow> store" where
  "update_book h a f = (case book_at h a of Some b \<Rightarrow> h[a := BookObj (f b)] | None \<Rightarrow> h)"

fun mutate :: "ref \<Rightarrow> store \<Rightarrow> mutation \<Rightarrow> store" where
  "mutate x h Clear = set_items h x []"
| "mutate x h (Append a) = set_items h x (items h x @ [a])"
| "mutate x h (Pop n) =
     (if n < length (items h x) then set_items h x (pop n (items h x)) else h)"
| "mutate x h (SetItem n a) =
     (if n < length (items h x) then set_items h x ((items h x)[n := a]) else h)"
| "mutate x h (SetTitle n v) =
     (if n < length (items h x) then update_book h (items h x ! n) (\<lambda>b. b\<lparr>title := v\<rparr>) else h)"
| "mutate x h (SetAuthor n v) =
     (if n < length (items h x) then update_book h (items h x ! n) (\<lambda>b. b\<lparr>author := v\<rparr>) else h)"
| "mutate x h (SetIsbn n v) =
     (if n < length (items h x) then update_book h (items h x ! n) (\<lambda>b. b\<lparr>isbn := v\<rparr>) else h)"

definition mutate_all :: "ref \<Rightarrow> store \<Rightarrow> mutation list \<Rightarrow> store" where
  "mutate_all x h ms = foldl (mutate x) h ms"

text \<open>The sequence without its first record of ISBN \<open>k\<close>.\<close>

fun remove_first :: "pyval \<Rightarrow> book list \<Rightarrow> book list" where
  "remove_first k [] = []"
| "remove_first k (b # bs) = (if isbn b = k then bs else b # remove_first k bs)"

text \<open>
  The shape the specification gives the backing file: a sequence of objects, each with
  the three fields \<^verbatim>\<open>title\<close>, \<^verbatim>\<open>author\<close> and \<^verbatim>\<open>isbn\<close> holding strings.
\<close>

fun spec_record :: "pyval \<Rightarrow> bool" where
  "spec_record (PDict kvs) =
     (case (map_of kvs (lit ''title''), map_of kvs (lit ''author''), map_of kvs (lit ''isbn'')) of
        (Some (PStr t), Some (PStr a), Some (PStr i)) \<Rightarrow> True
      | _ \<Rightarrow> False)"
| "spec_record _ = False"

fun spec_catalogue :: "pyval \<Rightarrow> bool" where
  "spec_catalogue (PList ds) = list_all spec_record ds"
| "spec_catalogue _ = False"

text \<open>
  What \<open>load_record\<close> asks of an element: to be a dictionary, and to have the three keys.
  \<open>field k d\<close> is the value under \<open>k\<close> in such a dictionary.
\<close>

fun is_dict :: "pyval \<Rightarrow> bool" where
  "is_dict (PDict kvs) = True"
| "is_dict _ = False"

fun has_keys :: "pyval \<Rightarrow> bool" where
  "has_keys (PDict kvs) =
     (map_of kvs (lit ''title'') \<noteq> None \<and> map_of kvs (lit ''author'') \<noteq> None \<and> map_of kvs (lit ''isbn'') \<noteq> None)"
| "has_keys _ = False"

fun field :: "pystr \<Rightarrow> pyval \<Rightarrow> pyval" where
  "field k (PDict kvs) = (case map_of kvs k of None \<Rightarrow> PNone | Some v \<Rightarrow> v)"
| "field k _ = PNone"

definition record_of :: "pyval \<Rightarrow> book" where
  "record_of d = Book (field (lit ''title'') d) (field (lit ''author'') d) (field (lit ''isbn'') d)"

text \<open>
  The author names of a lookup, in the words of the specification: each entry of the
  author list that is an object with a \<^verbatim>\<open>key\<close> gives, when the follow-up request has
  status 200 and a JSON object as its body, the \<^verbatim>\<open>name\<close> of that object or
  \<^verbatim>\<open>"Unknown Author"\<close> when the object has none; any other entry gives no name.
\<close>

definition spec_author_name :: "remote \<Rightarrow> pyval \<Rightarrow> pyval list" where
  "spec_author_name r author_ref =
     (case author_ref of
        PDict kvs \<Rightarrow>
          (case map_of kvs (lit ''key'') of
             None \<Rightarrow> []
           | Some k \<Rightarrow>
               (case author_get r k of
                  Response s (JSON (PDict akvs)) \<Rightarrow>
                    if s = 200
                    then [case map_of akvs (lit ''name'') of None \<Rightarrow> PStr (lit ''Unknown Author'') | Some n \<Rightarrow> n]
                    else []
                | _ \<Rightarrow> []))
      | _ \<Rightarrow> [])"

definition spec_display_names :: "remote \<Rightarrow> pyval list \<Rightarrow> pyval list" where
  "spec_display_names r refs = concat (map (spec_author_name r) refs)"

text \<open>
  The author list of a book response, in the words of the specification: the entries of
  the sequence under \<^verbatim>\<open>authors\<close>, none when the response has no such sequence.
\<close>

definition spec_author_entries :: "(pystr \<times> pyval) list \<Rightarrow> pyval list" where
  "spec_author_entries kvs =
     (case map_of kvs (lit ''authors'') of Some (PList refs) \<Rightarrow> refs | _ \<Rightarrow> [])"

text \<open>
  The names joined with \<^verbatim>\<open>", "\<close>, written without \<open>join\<close>: the first name, and each
  further name after a comma and a space.
\<close>

fun spec_joined :: "pystr list \<Rightarrow> pystr" where
  "spec_joined [] = []"
| "spec_joined (n # ns) = n @ concat (map (\<lambda>m. lit '', '' @ m) ns)"

text \<open>
  The persisted file format of the specification: an array with one object per record,
  in order, each with exactly the keys \<^verbatim>\<open>title\<close>, \<^verbatim>\<open>author\<close>, \<^verbatim>\<open>isbn\<close> in this
  order.
\<close>

definition spec_array :: "book list \<Rightarrow> pyval" where
  "spec_array bs =
     PList (map (\<lambda>b. PDict [(lit ''title'', title b), (lit ''author'', author b),
                             (lit ''isbn'', isbn b)]) bs)"

text \<open>
  A book record of the specification's data model, as far as the file is concerned: its
  three fields are strings, and strings that UTF-8 can encode.
\<close>

fun is_text :: "pyval \<Rightarrow> bool" where
  "is_text (PStr s) = encodable s"
| "is_text _ = False"

definition text_fields :: "book \<Rightarrow> bool" where
  "text_fields b = (is_text (title b) \<and> is_text (author b) \<and> is_text (isbn b))"

text \<open>
  The remote service \<open>r\<close>, except that the book request for \<open>i\<close> is answered with status
  \<open>s\<close> and the object \<open>kvs\<close>.
\<close>

definition answering :: "remote \<Rightarrow> pystr \<Rightarrow> nat \<Rightarrow> (pystr \<times> pyval) list \<Rightarrow> remote" where
  "answering r i s kvs = r\<lparr>book_get := (book_get r)(i := Response s (JSON (PDict kvs)))\<rparr>"

section \<open>Example data\<close>

definition dune :: book where
  "dune = Book (PStr (lit ''Dune'')) (PStr (lit ''Frank Herbert'')) (PStr (lit ''9780441172719''))"

definition dune_messiah :: book where
  "dune_messiah = Book (PStr (lit ''Dune Messiah'')) (PStr (lit ''Frank Herbert'')) (PStr (lit ''9780441172719''))"

definition orwell :: book where
  "orwell = Book (PStr (lit ''1984'')) (PStr (lit ''George Orwell'')) (PStr (lit ''9780451524935''))"

text \<open>
  A book whose title is one surrogate on its own, as \<^verbatim>\<open>json.load\<close> decodes it from
  \<^verbatim>\<open>"\ud800"\<close>.
\<close>

definition surrogate_title :: book where
  "surrogate_title = Book (PStr [55296]) (PStr (lit ''Nobody'')) (PStr (lit ''0000000001''))"

text \<open>A file, edited by hand, in which two records carry the same ISBN.\<close>

definition twice_file :: backing_file where
  "twice_file = Some (JSON (PList [to_dict dune, to_dict dune_messiah]))"

text \<open>A file whose only record has a number as its title.\<close>

definition number_title :: pyval where
  "number_title =
     PList [PDict [(lit ''title'', PInt 1984), (lit ''author'', PStr (lit ''George Orwell'')),
                   (lit ''isbn'', PStr (lit ''9780451524935''))]]"

text \<open>A remote service that knows no book.\<close>

definition no_such_book :: remote where
  "no_such_book = \<lparr>book_get = (\<lambda>i. Response 404 NotJSON), author_get = (\<lambda>k. Raises ConnectError)\<rparr>"

text \<open>
  The book response of the test suite, with one author reference, and three services that
  differ in their answer to the author request: the name, status 404, a timeout.
\<close>

definition gatsby_data :: pyval where
  "gatsby_data =
     PDict [(lit ''title'', PStr (lit ''The Great Gatsby'')),
            (lit ''authors'', PList [PDict [(lit ''key'', PStr (lit ''/authors/OL123A''))]])]"

definition gatsby_remote :: remote where
  "gatsby_remote =
     \<lparr>book_get = (\<lambda>i. Response 200 (JSON gatsby_data)),
      author_get = (\<lambda>k. Response 200 (JSON (PDict [(lit ''name'', PStr (lit ''F. Scott Fitzgerald''))])))\<rparr>"

definition author_missing_remote :: remote where
  "author_missing_remote =
     \<lparr>book_get = (\<lambda>i. Response 200 (JSON gatsby_data)),
      author_get = (\<lambda>k. Response 404 NotJSON)\<rparr>"

definition author_timeout_remote :: remote where
  "author_timeout_remote =
     \<lparr>book_get = (\<lambda>i. Response 200 (JSON gatsby_data)),
      author_get = (\<lambda>k. Raises TimeoutException)\<rparr>"

text \<open>
  A book response with two author references, and a service that knows both authors.
\<close>

definition omens_data :: pyval where
  "omens_data =
     PDict [(lit ''title'', PStr (lit ''Good Omens'')),
            (lit ''authors'', PList [PDict [(lit ''key'', PStr (lit ''/authors/OL1A''))],
                                    PDict [(lit ''key'', PStr (lit ''/authors/OL2A''))]])]"

definition omens_remote :: remote where
  "omens_remote =
     \<lparr>book_get = (\<lambda>i. Response 200 (JSON omens_data)),
      author_get = (\<lambda>k. if k = PStr (lit ''/authors/OL1A'')
                         then Response 200 (JSON (PDict [(lit ''name'', PStr (lit ''Terry Pratchett''))]))
                         else Response 200 (JSON (PDict [(lit ''name'', PStr (lit ''Neil Gaiman''))])))\<rparr>"

text \<open>A store with one book and the list of a catalogue that holds it, at address 1.\<close>

definition one_book_store :: store where
  "one_book_store = [BookObj dune, ListObj [0]]"

section \<open>Basic facts\<close>

declare remove_from.simps [simp del]

lemma lit_eq_iff [simp]: "lit s = lit t \<longleftrightarrow> s = t"
  by (simp add: lit_def inj_map_eq_map inj_of_char)

lemma lit_Nil [simp]: "lit [] = []"
  by (simp add: lit_def)

lemma lit_eq_Nil_iff [simp]: "lit s = [] \<longleftrightarrow> s = []" "[] = lit s \<longleftrightarrow> s = []"
  by (auto simp: lit_def)

lemma lit_append: "lit s @ lit t = lit (s @ t)"
  by (simp add: lit_def)

lemma encodable_lit [simp]: "encodable (lit s)"
proof -
  have "\<not> surrogate (of_char c)" for c :: char
  proof -
    have "(of_char c :: nat) < 256" by simp
    then have "\<not> 55296 \<le> (of_char c :: nat)" by linarith
    then show ?thesis by (simp add: surrogate_def)
  qed
  then show ?thesis
    by (simp add: encodable_def lit_def list_all_iff)
qed

lemma is_text_str_ok: "is_text v \<Longrightarrow> str_ok v"
  by (cases v) simp_all

lemma text_fields_encodes: "list_all text_fields bs \<Longrightarrow> encodes bs"
  by (induction bs) (simp_all add: encodes_def text_fields_def to_dict_def is_text_str_ok)

lemma dump_spec_array: "dump bs = JSON (spec_array bs)"
  by (simp add: dump_def spec_array_def to_dict_def)

lemma find_book_None_iff: "find_book bs i = None \<longleftrightarrow> (\<forall>b\<in>set bs. isbn b \<noteq> i)"
  by (induction bs) auto

lemma find_book_Some: "find_book bs i = Some b \<Longrightarrow> b \<in> set bs \<and> isbn b = i"
  by (induction bs) (auto split: if_splits)

lemma books_save_books: "books (snd (save_books d lib)) = books lib"
  by (simp add: save_books_def)

lemma load_record_to_dict: "load_record (to_dict b) = Inr b"
  by (simp add: load_record_def to_dict_def and_then_def Book_def)

lemma load_records_to_dict: "load_records (map to_dict bs) = Inr bs"
  by (induction bs) (simp_all add: load_record_to_dict and_then_def)

lemma load_books_dump:
  "load_books \<lparr>books = xs, backing = Some (dump bs)\<rparr> =
     (Inr (), \<lparr>books = bs, backing = Some (dump bs)\<rparr>)"
  by (simp add: load_books_def dump_def parse_def and_then_def load_records_to_dict)

lemma remove_from_absent:
  "(\<forall>j. i \<le> j \<and> j < length (books lib) \<longrightarrow> isbn (books lib ! j) \<noteq> k) \<Longrightarrow>
   remove_from d lib k i = (Inr False, lib)"
proof (induction d lib k i rule: remove_from.induct)
  case (1 d lib k i)
  show ?case
  proof (cases "i < length (books lib)")
    case True
    with "1.prems" have ne: "isbn (books lib ! i) \<noteq> k" by simp
    from "1.prems" have "\<forall>j. Suc i \<le> j \<and> j < length (books lib) \<longrightarrow> isbn (books lib ! j) \<noteq> k"
      by simp
    with "1.IH" True ne have "remove_from d lib k (Suc i) = (Inr False, lib)" by blast
    with True ne show ?thesis by (subst remove_from.simps) simp
  next
    case False
    then show ?thesis by (subst remove_from.simps) simp
  qed
qed

lemma remove_from_first:
  "i \<le> j \<Longrightarrow> j < length (books lib) \<Longrightarrow> isbn (books lib ! j) = k \<Longrightarrow>
   (\<forall>m. i \<le> m \<and> m < j \<longrightarrow> isbn (books lib ! m) \<noteq> k) \<Longrightarrow>
   remove_from d lib k i = pop_save d lib j"
proof (induction d lib k i rule: remove_from.induct)
  case (1 d lib k i)
  show ?case
  proof (cases "i = j")
    case True
    with "1.prems" show ?thesis by (subst remove_from.simps) simp
  next
    case False
    with "1.prems" have lt: "i < j" and ne: "isbn (books lib ! i) \<noteq> k" by auto
    from "1.prems" lt have il: "i < length (books lib)" by simp
    from "1.prems" lt have "\<forall>m. Suc i \<le> m \<and> m < j \<longrightarrow> isbn (books lib ! m) \<noteq> k" by simp
    with "1.IH" [OF il ne] lt "1.prems" have "remove_from d lib k (Suc i) = pop_save d lib j"
      by simp
    with il ne show ?thesis by (subst remove_from.simps) simp
  qed
qed

text \<open>
  \<open>remove_book\<close> either finds no record and changes nothing, or pops the first record
  with the ISBN and saves.
\<close>

lemma remove_book_cases:
  "((\<forall>b\<in>set (books lib). isbn b \<noteq> k) \<and> remove_book d lib k = (Inr False, lib)) \<or>
   (\<exists>j<length (books lib). isbn (books lib ! j) = k \<and> (\<forall>m<j. isbn (books lib ! m) \<noteq> k) \<and>
      remove_book d lib k = pop_save d lib j)"
proof (cases "\<exists>j<length (books lib). isbn (books lib ! j) = k")
  case False
  then have "\<forall>b\<in>set (books lib). isbn b \<noteq> k"
    by (metis in_set_conv_nth)
  with False show ?thesis by (simp add: remove_book_def remove_from_absent)
next
  case True
  define j where "j = (LEAST j. j < length (books lib) \<and> isbn (books lib ! j) = k)"
  from True have P: "j < length (books lib) \<and> isbn (books lib ! j) = k"
    unfolding j_def by (metis (mono_tags, lifting) LeastI)
  have least: "\<forall>m<j. isbn (books lib ! m) \<noteq> k"
  proof (intro allI impI)
    fix m assume "m < j"
    with P have "m < length (books lib)" by simp
    with \<open>m < j\<close> show "isbn (books lib ! m) \<noteq> k"
      unfolding j_def using not_less_Least by blast
  qed
  with P have "remove_book d lib k = pop_save d lib j"
    unfolding remove_book_def by (intro remove_from_first) auto
  with P least show ?thesis by blast
qed



lemma pop_first_match:
  "j < length bs \<Longrightarrow> isbn (bs ! j) = k \<Longrightarrow> (\<forall>m<j. isbn (bs ! m) \<noteq> k) \<Longrightarrow>
   pop j bs = remove_first k bs"
proof (induction bs arbitrary: j)
  case Nil
  then show ?case by simp
next
  case (Cons b bs)
  show ?case
  proof (cases j)
    case 0
    with Cons.prems show ?thesis by (simp add: pop_def)
  next
    case (Suc n)
    with Cons.prems have b: "isbn b \<noteq> k" by auto
    from Suc Cons.prems have "n < length bs" "isbn (bs ! n) = k" "\<forall>m<n. isbn (bs ! m) \<noteq> k"
      by auto
    then have "pop n bs = remove_first k bs" by (rule Cons.IH)
    with Suc b show ?thesis by (simp add: pop_def)
  qed
qed

lemma remove_book_absent:
  "\<forall>b\<in>set (books lib). isbn b \<noteq> k \<Longrightarrow> remove_book d lib k = (Inr False, lib)"
  by (simp add: remove_book_def remove_from_absent)

lemma remove_book_present:
  assumes "\<exists>b\<in>set (books lib). isbn b = k"
  shows "remove_book d lib k =
           (case save_books d (lib\<lparr>books := remove_first k (books lib)\<rparr>) of
              (Inl e, lib') \<Rightarrow> (Inl e, lib')
            | (Inr u, lib') \<Rightarrow> (Inr True, lib'))"
proof -
  from assms remove_book_cases [of lib k d]
  obtain j where j: "j < length (books lib)" "isbn (books lib ! j) = k"
      "\<forall>m<j. isbn (books lib ! m) \<noteq> k" "remove_book d lib k = pop_save d lib j"
    by blast
  then have "pop j (books lib) = remove_first k (books lib)"
    by (intro pop_first_match)
  with j show ?thesis by (simp add: pop_save_def)
qed

lemma set_remove_first: "set (remove_first k bs) \<subseteq> set bs"
  by (induction bs) auto

lemma find_book_remove_first:
  "distinct (map isbn bs) \<Longrightarrow> find_book (remove_first k bs) k = None"
proof (induction bs)
  case Nil
  then show ?case by simp
next
  case (Cons b bs)
  show ?case
  proof (cases "isbn b = k")
    case True
    from Cons.prems have "isbn b \<notin> isbn ` set bs" by simp
    then have "\<forall>x\<in>set bs. isbn x \<noteq> isbn b" by (metis imageI)
    with True have "\<forall>x\<in>set bs. isbn x \<noteq> k" by simp
    with True show ?thesis by (simp add: find_book_None_iff)
  next
    case False
    with Cons show ?thesis by simp
  qed
qed

lemma length_remove_first:
  "\<exists>b\<in>set bs. isbn b = k \<Longrightarrow> Suc (length (remove_first k bs)) = length bs"
  by (induction bs) auto







lemma new_library_NotJSON:
  "new_library (Some NotJSON) = (Inr (), \<lparr>books = [], backing = Some NotJSON\<rparr>)"
  by (simp add: new_library_def load_books_def parse_def and_then_def)

lemma new_library_dump:
  "new_library (Some (dump bs)) = (Inr (), \<lparr>books = bs, backing = Some (dump bs)\<rparr>)"
  by (simp add: new_library_def load_books_dump)

text \<open>The outcomes of \<open>save_books\<close>.\<close>

lemma save_books_OpenFails: "save_books OpenFails lib = (Inl IOError, lib)"
  by (simp add: save_books_def)

lemma save_books_text:
  assumes "list_all text_fields (books lib)"
  shows "save_books Writable lib = (Inr (), lib\<lparr>backing := Some (JSON (spec_array (books lib)))\<rparr>)"
    and "save_books WriteFails lib = (Inl IOError, lib\<lparr>backing := Some NotJSON\<rparr>)"
  using text_fields_encodes [OF assms] by (simp_all add: save_books_def dump_spec_array)

lemma save_books_returns:
  "fst (save_books d lib) = Inr u \<Longrightarrow>
   snd (save_books d lib) = lib\<lparr>backing := Some (JSON (spec_array (books lib)))\<rparr>"
  by (auto simp: save_books_def dump_spec_array split: if_splits)

lemma new_library_spec_array:
  "new_library (Some (JSON (spec_array bs))) =
     (Inr (), \<lparr>books = bs, backing = Some (JSON (spec_array bs))\<rparr>)"
  using new_library_dump [of bs] by (simp add: dump_spec_array)

lemma spec_array_inject: "spec_array bs = spec_array cs \<Longrightarrow> bs = cs"
proof -
  assume "spec_array bs = spec_array cs"
  then have "dump bs = dump cs" by (simp add: dump_spec_array)
  then have "map to_dict bs = map to_dict cs" by (simp add: dump_def)
  then have "load_records (map to_dict bs) = load_records (map to_dict cs)" by simp
  then show "bs = cs" by (simp add: load_records_to_dict)
qed

lemma isbn_examples [simp]:
  "isbn dune = PStr (lit ''9780441172719'')"
  "isbn dune_messiah = PStr (lit ''9780441172719'')"
  "isbn orwell = PStr (lit ''9780451524935'')"
  "isbn surrogate_title = PStr (lit ''0000000001'')"
  by (simp_all add: dune_def dune_messiah_def orwell_def surrogate_title_def Book_def)

lemma text_fields_examples [simp]:
  "text_fields dune" "text_fields dune_messiah" "text_fields orwell"
  by (simp_all add: text_fields_def dune_def dune_messiah_def orwell_def Book_def)

lemma text_fields_surrogate_title [simp]: "\<not> text_fields surrogate_title"
  by (simp add: text_fields_def surrogate_title_def Book_def encodable_def surrogate_def)

lemma encodes_surrogate_title [simp]: "\<not> encodes (bs @ [surrogate_title])"
  by (simp add: encodes_def surrogate_title_def Book_def to_dict_def encodable_def
      surrogate_def)

section \<open>add\<close>

text \<open>
  Claim C2, as stated, does not hold in its last part: \<open>add_book\<close> does not always
  persist the sequence. With \<^verbatim>\<open>ensure_ascii=False\<close> a title that holds a surrogate
  cannot be written to the UTF-8 file: the record is appended, \<^verbatim>\<open>UnicodeEncodeError\<close>
  (which \<open>save_books\<close> does not catch) reaches the caller and the file is left with the
  beginning of a document. And when the file cannot be opened, the record is appended,
  \<open>IOError\<close> reaches the caller and the file is as before.
\<close>

theorem add_book_not_persisted:
  "isbn surrogate_title = PStr (lit ''0000000001'') \<and>
   add_book Writable \<lparr>books = [], backing = None\<rparr> surrogate_title =
     (Inl UnicodeEncodeError, \<lparr>books = [surrogate_title], backing = Some NotJSON\<rparr>) \<and>
   NotJSON \<noteq> JSON (spec_array [surrogate_title]) \<and>
   add_book OpenFails \<lparr>books = [dune], backing = Some (JSON (spec_array [dune]))\<rparr> orwell =
     (Inl IOError, \<lparr>books = [dune, orwell], backing = Some (JSON (spec_array [dune]))\<rparr>) \<and>
   spec_array [dune] \<noteq> spec_array [dune, orwell]"
proof -
  have "add_book Writable \<lparr>books = [], backing = None\<rparr> surrogate_title =
     (Inl UnicodeEncodeError, \<lparr>books = [surrogate_title], backing = Some NotJSON\<rparr>)"
    using encodes_surrogate_title [of "[]"] by (simp add: add_book_def save_books_def)
  moreover have "add_book OpenFails \<lparr>books = [dune], backing = Some (JSON (spec_array [dune]))\<rparr>
      orwell =
     (Inl IOError, \<lparr>books = [dune, orwell], backing = Some (JSON (spec_array [dune]))\<rparr>)"
    by (simp add: add_book_def save_books_def)
  moreover have "spec_array [dune] \<noteq> spec_array [dune, orwell]"
    by (simp add: spec_array_def)
  ultimately show ?thesis by simp
qed

text \<open>
  Claim C2, amended. For every catalogue and every book whose ISBN is a string: if a
  record with the same ISBN is already stored, \<open>add_book\<close> raises the \<open>ValueError\<close>
  "already exists" and leaves the sequence and the file exactly as they were. Otherwise
  it appends the record at the end of the sequence, the earlier records staying in place,
  and then saves. When the file can be written and every field of every record is a
  string that UTF-8 can encode, the call returns and the file holds the whole new
  sequence, one object with the keys \<^verbatim>\<open>title\<close>, \<^verbatim>\<open>author\<close>, \<^verbatim>\<open>isbn\<close> per record, in
  order; whenever the call returns, the file holds that document. When the file cannot
  be opened, \<open>IOError\<close> is raised with the record appended and the file as before.
\<close>

theorem add_book_duplicate_or_append:
  assumes "isbn b = PStr i"
  shows
  "((\<exists>x\<in>set (books lib). isbn x = PStr i) \<longrightarrow>
      add_book d lib b = (Inl (ValueError (AlreadyExists (PStr i))), lib)) \<and>
   (\<not> (\<exists>x\<in>set (books lib). isbn x = PStr i) \<longrightarrow>
      books (snd (add_book d lib b)) = books lib @ [b] \<and>
      (list_all text_fields (books lib @ [b]) \<longrightarrow>
         add_book Writable lib b =
           (Inr (), \<lparr>books = books lib @ [b],
                     backing = Some (JSON (spec_array (books lib @ [b])))\<rparr>)) \<and>
      (fst (add_book d lib b) = Inr () \<longrightarrow>
         backing (snd (add_book d lib b)) = Some (JSON (spec_array (books lib @ [b])))) \<and>
      add_book OpenFails lib b = (Inl IOError, \<lparr>books = books lib @ [b], backing = backing lib\<rparr>))"
proof (intro conjI impI)
  assume "\<exists>x\<in>set (books lib). isbn x = PStr i"
  with assms show "add_book d lib b = (Inl (ValueError (AlreadyExists (PStr i))), lib)"
    by (auto simp: add_book_def find_book_None_iff)
next
  assume "\<not> (\<exists>x\<in>set (books lib). isbn x = PStr i)"
  with assms have a: "\<And>d. add_book d lib b = save_books d (lib\<lparr>books := books lib @ [b]\<rparr>)"
    by (simp add: add_book_def find_book_None_iff)
  show "books (snd (add_book d lib b)) = books lib @ [b]"
    by (simp add: a books_save_books)
  show "add_book OpenFails lib b = (Inl IOError, \<lparr>books = books lib @ [b], backing = backing lib\<rparr>)"
    by (simp add: a save_books_OpenFails)
  {
    assume "list_all text_fields (books lib @ [b])"
    then have "list_all text_fields (books (lib\<lparr>books := books lib @ [b]\<rparr>))" by simp
    from save_books_text(1) [OF this]
    show "add_book Writable lib b =
           (Inr (), \<lparr>books = books lib @ [b],
                     backing = Some (JSON (spec_array (books lib @ [b])))\<rparr>)"
      by (simp add: a)
  }
  {
    assume "fst (add_book d lib b) = Inr ()"
    then have "fst (save_books d (lib\<lparr>books := books lib @ [b]\<rparr>)) = Inr ()" by (simp add: a)
    from save_books_returns [OF this]
    show "backing (snd (add_book d lib b)) = Some (JSON (spec_array (books lib @ [b])))"
      by (simp add: a)
  }
qed

theorem add_book_duplicate_or_append_witness:
  "isbn dune_messiah = PStr (lit ''9780441172719'') \<and>
   isbn orwell = PStr (lit ''9780451524935'') \<and>
   add_book Writable \<lparr>books = [dune], backing = None\<rparr> dune_messiah =
     (Inl (ValueError (AlreadyExists (PStr (lit ''9780441172719'')))),
      \<lparr>books = [dune], backing = None\<rparr>) \<and>
   add_book Writable \<lparr>books = [dune], backing = None\<rparr> orwell =
     (Inr (),
      \<lparr>books = [dune, orwell],
       backing = Some (JSON (PList
         [PDict [(lit ''title'', PStr (lit ''Dune'')), (lit ''author'', PStr (lit ''Frank Herbert'')),
                 (lit ''isbn'', PStr (lit ''9780441172719''))],
          PDict [(lit ''title'', PStr (lit ''1984'')), (lit ''author'', PStr (lit ''George Orwell'')),
                 (lit ''isbn'', PStr (lit ''9780451524935''))]]))\<rparr>) \<and>
   add_book OpenFails \<lparr>books = [dune], backing = None\<rparr> orwell =
     (Inl IOError, \<lparr>books = [dune, orwell], backing = None\<rparr>)"
proof -
  let ?lib = "\<lparr>books = [dune], backing = None\<rparr>"
  have s: "JSON (spec_array [dune, orwell]) = JSON (PList
         [PDict [(lit ''title'', PStr (lit ''Dune'')), (lit ''author'', PStr (lit ''Frank Herbert'')),
                 (lit ''isbn'', PStr (lit ''9780441172719''))],
          PDict [(lit ''title'', PStr (lit ''1984'')), (lit ''author'', PStr (lit ''George Orwell'')),
                 (lit ''isbn'', PStr (lit ''9780451524935''))]])"
    by (simp add: spec_array_def dune_def orwell_def Book_def)
  have m: "isbn dune_messiah = PStr (lit ''9780441172719'')"
    and w: "isbn orwell = PStr (lit ''9780451524935'')"
    by simp_all
  from add_book_duplicate_or_append [OF m, of ?lib Writable]
  have 1: "add_book Writable ?lib dune_messiah =
     (Inl (ValueError (AlreadyExists (PStr (lit ''9780441172719'')))), ?lib)"
    by simp
  from add_book_duplicate_or_append [OF w, of ?lib Writable]
  have 2: "add_book Writable ?lib orwell =
     (Inr (), \<lparr>books = [dune, orwell], backing = Some (JSON (spec_array [dune, orwell]))\<rparr>)"
    and 3: "add_book OpenFails ?lib orwell =
     (Inl IOError, \<lparr>books = [dune, orwell], backing = None\<rparr>)"
    by simp_all
  from 2 s have "add_book Writable ?lib orwell =
     (Inr (),
      \<lparr>books = [dune, orwell],
       backing = Some (JSON (PList
         [PDict [(lit ''title'', PStr (lit ''Dune'')), (lit ''author'', PStr (lit ''Frank Herbert'')),
                 (lit ''isbn'', PStr (lit ''9780441172719''))],
          PDict [(lit ''title'', PStr (lit ''1984'')), (lit ''author'', PStr (lit ''George Orwell'')),
                 (lit ''isbn'', PStr (lit ''9780451524935''))]]))\<rparr>)"
    by (simp only:)
  with m w 1 3 show ?thesis by (intro conjI)
qed

section \<open>Uniqueness of ISBNs\<close>




section \<open>remove\<close>

lemma remove_first_filter:
  "distinct (map isbn bs) \<Longrightarrow> remove_first k bs = filter (\<lambda>b. isbn b \<noteq> k) bs"
proof (induction bs)
  case Nil
  then show ?case by simp
next
  case (Cons b bs)
  show ?case
  proof (cases "isbn b = k")
    case True
    from Cons.prems have "isbn b \<notin> isbn ` set bs" by simp
    then have "\<forall>x\<in>set bs. isbn x \<noteq> isbn b" by (metis imageI)
    with True have "filter (\<lambda>b. isbn b \<noteq> k) bs = bs" by simp
    with True show ?thesis by simp
  next
    case False
    with Cons show ?thesis by simp
  qed
qed

lemma remove_book_present_fst:
  assumes "\<exists>b\<in>set (books lib). isbn b = k"
  shows "snd (remove_book d lib k) = snd (save_books d (lib\<lparr>books := remove_first k (books lib)\<rparr>))"
    and "fst (remove_book d lib k) =
           (case fst (save_books d (lib\<lparr>books := remove_first k (books lib)\<rparr>)) of
              Inl e \<Rightarrow> Inl e | Inr u \<Rightarrow> Inr True)"
  by (simp_all add: remove_book_present [OF assms] split: prod.splits sum.splits)

text \<open>
  Claim C6, as stated, does not hold in a catalogue that has two records with the ISBN
  (one loaded from \<open>twice_file\<close>): \<open>remove_book\<close> returns \<^verbatim>\<open>True\<close> after popping the
  first of them, and \<open>find_book\<close> then returns the second.
\<close>

theorem remove_book_leaves_second_record:
  "new_library twice_file = (Inr (), \<lparr>books = [dune, dune_messiah], backing = twice_file\<rparr>) \<and>
   fst (remove_book Writable \<lparr>books = [dune, dune_messiah], backing = twice_file\<rparr>
          (PStr (lit ''9780441172719''))) = Inr True \<and>
   find_book
     (books (snd (remove_book Writable \<lparr>books = [dune, dune_messiah], backing = twice_file\<rparr>
                    (PStr (lit ''9780441172719'')))))
     (PStr (lit ''9780441172719'')) = Some dune_messiah"
proof -
  have l: "new_library twice_file =
      (Inr (), \<lparr>books = [dune, dune_messiah], backing = twice_file\<rparr>)"
    by (simp add: new_library_def load_books_def twice_file_def parse_def and_then_def
        load_record_to_dict)
  have p: "\<exists>b\<in>set (books \<lparr>books = [dune, dune_messiah], backing = twice_file\<rparr>).
      isbn b = PStr (lit ''9780441172719'')"
    by simp
  have t: "list_all text_fields [dune_messiah]" by simp
  have "remove_book Writable \<lparr>books = [dune, dune_messiah], backing = twice_file\<rparr>
          (PStr (lit ''9780441172719'')) =
        (Inr True, \<lparr>books = [dune_messiah], backing = Some (JSON (spec_array [dune_messiah]))\<rparr>)"
    using save_books_text(1) [of "\<lparr>books = [dune_messiah], backing = twice_file\<rparr>"] t
    by (simp add: remove_book_present [OF p])
  with l show ?thesis by simp
qed

text \<open>
  Claim C6, amended. For every catalogue whose ISBNs are unique and every ISBN string: if
  a record with the ISBN is present, \<open>remove_book\<close> removes it from the sequence (the
  other records keep their order) and a following \<open>find_book\<close> on that ISBN returns
  \<^verbatim>\<open>None\<close>, whether the save then succeeds or raises. When the file can be written and
  every field of the remaining records is a string that UTF-8 can encode, the call
  returns \<^verbatim>\<open>True\<close> and the file holds the remaining sequence; whenever the call returns
  \<^verbatim>\<open>True\<close>, the file holds that sequence. When the file cannot be opened, \<open>IOError\<close> is
  raised with the record removed and the file as before. For every catalogue: if no
  record has the ISBN, the call returns \<^verbatim>\<open>False\<close>, raises nothing and changes neither
  the sequence nor the file.
\<close>

theorem remove_book_unique:
  "(unique_isbns (books lib) \<and> (\<exists>b\<in>set (books lib). isbn b = PStr i) \<longrightarrow>
      books (snd (remove_book d lib (PStr i))) = filter (\<lambda>b. isbn b \<noteq> PStr i) (books lib) \<and>
      length (books lib) = Suc (length (books (snd (remove_book d lib (PStr i))))) \<and>
      find_book (books (snd (remove_book d lib (PStr i)))) (PStr i) = None \<and>
      (list_all text_fields (filter (\<lambda>b. isbn b \<noteq> PStr i) (books lib)) \<longrightarrow>
         remove_book Writable lib (PStr i) =
           (Inr True,
            \<lparr>books = filter (\<lambda>b. isbn b \<noteq> PStr i) (books lib),
             backing = Some (JSON (spec_array (filter (\<lambda>b. isbn b \<noteq> PStr i) (books lib))))\<rparr>)) \<and>
      (fst (remove_book d lib (PStr i)) = Inr True \<longrightarrow>
         backing (snd (remove_book d lib (PStr i))) =
           Some (JSON (spec_array (filter (\<lambda>b. isbn b \<noteq> PStr i) (books lib))))) \<and>
      remove_book OpenFails lib (PStr i) =
        (Inl IOError,
         \<lparr>books = filter (\<lambda>b. isbn b \<noteq> PStr i) (books lib), backing = backing lib\<rparr>)) \<and>
   (\<not> (\<exists>b\<in>set (books lib). isbn b = PStr i) \<longrightarrow>
      remove_book d lib (PStr i) = (Inr False, lib))"
proof (intro conjI impI)
  assume "\<not> (\<exists>b\<in>set (books lib). isbn b = PStr i)"
  then show "remove_book d lib (PStr i) = (Inr False, lib)"
    by (simp add: remove_book_absent)
next
  assume a: "unique_isbns (books lib) \<and> (\<exists>b\<in>set (books lib). isbn b = PStr i)"
  then have p: "\<exists>b\<in>set (books lib). isbn b = PStr i" by simp
  let ?rest = "filter (\<lambda>b. isbn b \<noteq> PStr i) (books lib)"
  from a have f: "remove_first (PStr i) (books lib) = ?rest"
    by (simp add: remove_first_filter unique_isbns_def)
  note r = remove_book_present [OF p, unfolded f]
  show b: "books (snd (remove_book d lib (PStr i))) = ?rest"
    using remove_book_present_fst(1) [OF p, of d] by (simp add: books_save_books f)
  from p show "length (books lib) = Suc (length (books (snd (remove_book d lib (PStr i)))))"
    using length_remove_first [of "books lib" "PStr i"] by (simp add: b f)
  from a show "find_book (books (snd (remove_book d lib (PStr i)))) (PStr i) = None"
    using find_book_remove_first [of "books lib" "PStr i"] by (simp add: b f unique_isbns_def)
  show "remove_book OpenFails lib (PStr i) = (Inl IOError, \<lparr>books = ?rest, backing = backing lib\<rparr>)"
    by (simp add: r save_books_OpenFails)
  {
    assume "list_all text_fields ?rest"
    then have "list_all text_fields (books (lib\<lparr>books := ?rest\<rparr>))" by simp
    from save_books_text(1) [OF this]
    show "remove_book Writable lib (PStr i) =
           (Inr True, \<lparr>books = ?rest, backing = Some (JSON (spec_array ?rest))\<rparr>)"
      by (simp add: r)
  }
  {
    assume "fst (remove_book d lib (PStr i)) = Inr True"
    then have "fst (save_books d (lib\<lparr>books := ?rest\<rparr>)) = Inr ()"
      using remove_book_present_fst(2) [OF p, of d] by (simp add: f split: sum.splits)
    from save_books_returns [OF this]
    show "backing (snd (remove_book d lib (PStr i))) = Some (JSON (spec_array ?rest))"
      using remove_book_present_fst(1) [OF p, of d] by (simp add: f)
  }
qed

theorem remove_book_unique_witness:
  "unique_isbns [dune, orwell] \<and>
   remove_book Writable \<lparr>books = [dune, orwell], backing = None\<rparr>
       (PStr (lit ''9780441172719'')) =
     (Inr True,
      \<lparr>books = [orwell],
       backing = Some (JSON (PList
         [PDict [(lit ''title'', PStr (lit ''1984'')), (lit ''author'', PStr (lit ''George Orwell'')),
                 (lit ''isbn'', PStr (lit ''9780451524935''))]]))\<rparr>) \<and>
   find_book [orwell] (PStr (lit ''9780441172719'')) = None \<and>
   remove_book OpenFails \<lparr>books = [dune, orwell], backing = None\<rparr>
       (PStr (lit ''9780441172719'')) =
     (Inl IOError, \<lparr>books = [orwell], backing = None\<rparr>) \<and>
   remove_book Writable \<lparr>books = [orwell], backing = None\<rparr> (PStr (lit ''9780441172719'')) =
     (Inr False, \<lparr>books = [orwell], backing = None\<rparr>)"
proof -
  let ?lib = "\<lparr>books = [dune, orwell], backing = None\<rparr>"
  let ?k = "lit ''9780441172719''"
  have s: "JSON (spec_array [orwell]) = JSON (PList
         [PDict [(lit ''title'', PStr (lit ''1984'')), (lit ''author'', PStr (lit ''George Orwell'')),
                 (lit ''isbn'', PStr (lit ''9780451524935''))]])"
    by (simp add: spec_array_def orwell_def Book_def)
  have u: "unique_isbns [dune, orwell]"
    by (simp add: unique_isbns_def)
  have h: "unique_isbns (books ?lib) \<and> (\<exists>b\<in>set (books ?lib). isbn b = PStr ?k)"
    using u by simp
  have fl: "filter (\<lambda>b. isbn b \<noteq> PStr ?k) (books ?lib) = [orwell]"
    by simp
  have t: "list_all text_fields (filter (\<lambda>b. isbn b \<noteq> PStr ?k) (books ?lib))"
    by simp
  note th = remove_book_unique [of ?lib ?k Writable, THEN conjunct1, THEN mp, OF h]
  from th t have 1: "remove_book Writable ?lib (PStr ?k) =
      (Inr True, \<lparr>books = [orwell], backing = Some (JSON (spec_array [orwell]))\<rparr>)"
    unfolding fl by blast
  from th have 2: "remove_book OpenFails ?lib (PStr ?k) =
      (Inl IOError, \<lparr>books = [orwell], backing = None\<rparr>)"
    unfolding fl by simp
  from th have "find_book (books (snd (remove_book Writable ?lib (PStr ?k)))) (PStr ?k) = None"
    by blast
  with 1 have 3: "find_book [orwell] (PStr ?k) = None" by simp
  from remove_book_unique [of "\<lparr>books = [orwell], backing = None\<rparr>" ?k Writable]
  have 4: "remove_book Writable \<lparr>books = [orwell], backing = None\<rparr> (PStr ?k) =
     (Inr False, \<lparr>books = [orwell], backing = None\<rparr>)"
    by simp
  from 1 s have "remove_book Writable ?lib (PStr ?k) =
     (Inr True,
      \<lparr>books = [orwell],
       backing = Some (JSON (PList
         [PDict [(lit ''title'', PStr (lit ''1984'')), (lit ''author'', PStr (lit ''George Orwell'')),
                 (lit ''isbn'', PStr (lit ''9780451524935''))]]))\<rparr>)"
    by (simp only:)
  with u 2 3 4 show ?thesis by (intro conjI)
qed

section \<open>save and load\<close>

text \<open>
  Claim C5, as stated, does not hold for every string: a record whose title is a
  surrogate on its own has three string fields, but saving it on a writable file raises
  \<^verbatim>\<open>UnicodeEncodeError\<close> and leaves the beginning of a document, from which a load
  gives the empty catalogue, not the record.
\<close>

theorem surrogate_title_not_saved:
  "is_str (title surrogate_title) \<and> is_str (author surrogate_title) \<and>
   is_str (isbn surrogate_title) \<and>
   save_books Writable \<lparr>books = [surrogate_title], backing = None\<rparr> =
     (Inl UnicodeEncodeError, \<lparr>books = [surrogate_title], backing = Some NotJSON\<rparr>) \<and>
   books (snd (new_library (Some NotJSON))) = [] \<and>
   books (snd (new_library (Some NotJSON))) \<noteq> [surrogate_title]"
proof -
  have "save_books Writable \<lparr>books = [surrogate_title], backing = None\<rparr> =
     (Inl UnicodeEncodeError, \<lparr>books = [surrogate_title], backing = Some NotJSON\<rparr>)"
    using encodes_surrogate_title [of "[]"] by (simp add: save_books_def)
  then show ?thesis
    by (simp add: new_library_NotJSON surrogate_title_def Book_def)
qed

text \<open>
  Claim C5, amended. For every sequence of book records whose fields are strings that
  UTF-8 can encode (strings without a surrogate on its own), \<open>save_books\<close> on a file
  that can be written returns, the file holds one object per record with its three field
  values, in order, and a load from that file gives the same sequence back: as many
  records, with the same field values, in the same order. This holds for the catalogue
  that saved and for a new \<^verbatim>\<open>Library\<close> on the file.
\<close>

theorem save_then_load:
  assumes "list_all text_fields (books lib)"
  shows "save_books Writable lib =
           (Inr (), \<lparr>books = books lib, backing = Some (JSON (spec_array (books lib)))\<rparr>) \<and>
         load_books (snd (save_books Writable lib)) =
           (Inr (), \<lparr>books = books lib, backing = Some (JSON (spec_array (books lib)))\<rparr>) \<and>
         new_library (backing (snd (save_books Writable lib))) =
           (Inr (), \<lparr>books = books lib, backing = Some (JSON (spec_array (books lib)))\<rparr>)"
proof -
  from save_books_text(1) [OF assms]
  have s: "save_books Writable lib =
           (Inr (), \<lparr>books = books lib, backing = Some (JSON (spec_array (books lib)))\<rparr>)"
    by (cases lib) simp
  have "load_books \<lparr>books = books lib, backing = Some (JSON (spec_array (books lib)))\<rparr> =
      (Inr (), \<lparr>books = books lib, backing = Some (JSON (spec_array (books lib)))\<rparr>)"
    using load_books_dump [of "books lib" "books lib"] by (simp add: dump_spec_array)
  with s show ?thesis by (simp add: new_library_spec_array)
qed

theorem save_then_load_witness:
  "list_all text_fields [dune, orwell] \<and>
   save_books Writable \<lparr>books = [dune, orwell], backing = Some NotJSON\<rparr> =
     (Inr (),
      \<lparr>books = [dune, orwell],
       backing = Some (JSON (PList
         [PDict [(lit ''title'', PStr (lit ''Dune'')), (lit ''author'', PStr (lit ''Frank Herbert'')),
                 (lit ''isbn'', PStr (lit ''9780441172719''))],
          PDict [(lit ''title'', PStr (lit ''1984'')), (lit ''author'', PStr (lit ''George Orwell'')),
                 (lit ''isbn'', PStr (lit ''9780451524935''))]]))\<rparr>) \<and>
   books (snd (new_library (backing (snd (save_books Writable
      \<lparr>books = [dune, orwell], backing = Some NotJSON\<rparr>))))) = [dune, orwell]"
proof -
  let ?lib = "\<lparr>books = [dune, orwell], backing = Some NotJSON\<rparr>"
  have s: "JSON (spec_array [dune, orwell]) = JSON (PList
         [PDict [(lit ''title'', PStr (lit ''Dune'')), (lit ''author'', PStr (lit ''Frank Herbert'')),
                 (lit ''isbn'', PStr (lit ''9780441172719''))],
          PDict [(lit ''title'', PStr (lit ''1984'')), (lit ''author'', PStr (lit ''George Orwell'')),
                 (lit ''isbn'', PStr (lit ''9780451524935''))]])"
    by (simp add: spec_array_def dune_def orwell_def Book_def)
  have t: "list_all text_fields (books ?lib)" by simp
  from save_then_load [OF t, THEN conjunct1]
  have 1: "save_books Writable ?lib =
      (Inr (), \<lparr>books = [dune, orwell], backing = Some (JSON (spec_array [dune, orwell]))\<rparr>)"
    by simp
  from save_then_load [OF t, THEN conjunct2, THEN conjunct2]
  have 2: "new_library (backing (snd (save_books Writable ?lib))) =
      (Inr (), \<lparr>books = [dune, orwell], backing = Some (JSON (spec_array [dune, orwell]))\<rparr>)"
    by simp
  from 2 have 3: "books (snd (new_library (backing (snd (save_books Writable ?lib))))) =
      [dune, orwell]"
    by simp
  from 1 s have "save_books Writable ?lib =
     (Inr (),
      \<lparr>books = [dune, orwell],
       backing = Some (JSON (PList
         [PDict [(lit ''title'', PStr (lit ''Dune'')), (lit ''author'', PStr (lit ''Frank Herbert'')),
                 (lit ''isbn'', PStr (lit ''9780441172719''))],
          PDict [(lit ''title'', PStr (lit ''1984'')), (lit ''author'', PStr (lit ''George Orwell'')),
                 (lit ''isbn'', PStr (lit ''9780451524935''))]]))\<rparr>)"
    by (simp only:)
  moreover have "list_all text_fields [dune, orwell]" by simp
  ultimately show ?thesis using 3 by (intro conjI)
qed

section \<open>load of a malformed file\<close>

lemma load_record_has_keys: "has_keys d \<Longrightarrow> load_record d = Inr (record_of d)"
  by (cases d) (auto simp: load_record_def and_then_def record_of_def)

lemma load_record_lacks_key:
  "is_dict d \<Longrightarrow> \<not> has_keys d \<Longrightarrow> load_record d = Inl KeyError"
  by (cases d) (auto simp: load_record_def and_then_def split: option.splits)

lemma load_records_has_keys:
  "list_all has_keys ds \<Longrightarrow> load_records ds = Inr (map record_of ds)"
  by (induction ds) (simp_all add: load_record_has_keys and_then_def)

lemma load_records_lacks_key:
  "list_all is_dict ds \<Longrightarrow> \<not> list_all has_keys ds \<Longrightarrow> load_records ds = Inl KeyError"
proof (induction ds)
  case Nil
  then show ?case by simp
next
  case (Cons d ds)
  show ?case
  proof (cases "has_keys d")
    case True
    with Cons have "load_records ds = Inl KeyError" by simp
    with True show ?thesis by (simp add: load_record_has_keys and_then_def)
  next
    case False
    with Cons.prems show ?thesis by (simp add: load_record_lacks_key and_then_def)
  qed
qed

text \<open>
  Claim C3, as stated, does not hold: a file that is valid JSON but no sequence of objects
  with three string fields is not always loaded as the empty catalogue. The fields are
  read by key and their values are not inspected, so a record whose title is a number is
  loaded as it is.
\<close>

theorem load_books_takes_number_title:
  "\<not> spec_catalogue number_title \<and>
   new_library (Some (JSON number_title)) =
     (Inr (),
      \<lparr>books = [Book (PInt 1984) (PStr (lit ''George Orwell'')) (PStr (lit ''9780451524935''))],
       backing = Some (JSON number_title)\<rparr>) \<and>
   books (snd (new_library (Some (JSON number_title)))) \<noteq> []"
  by (simp add: number_title_def new_library_def load_books_def parse_def and_then_def
      load_record_def)

text \<open>
  The \<^verbatim>\<open>except\<close> clause of \<open>load_books\<close> names \<^verbatim>\<open>JSONDecodeError\<close>, \<^verbatim>\<open>KeyError\<close> and
  \<^verbatim>\<open>FileNotFoundError\<close> only. A document that cannot be iterated, or an element that
  cannot be subscripted by a string, raises \<^verbatim>\<open>TypeError\<close>, which leaves the
  constructor; so does every other exception of reading and decoding the file, such as
  \<^verbatim>\<open>UnicodeDecodeError\<close> for a file that is not UTF-8, \<^verbatim>\<open>RecursionError\<close> for
  brackets nested too deep and the \<^verbatim>\<open>ValueError\<close> for an integer literal that is too
  long.
\<close>

lemma load_books_unreadable:
  "new_library (Some (Unreadable e)) =
     (if e = JSONDecodeError \<or> e = KeyError \<or> e = FileNotFoundError
      then (Inr (), \<lparr>books = [], backing = Some (Unreadable e)\<rparr>)
      else (Inl e, \<lparr>books = [], backing = Some (Unreadable e)\<rparr>))"
  by (simp add: new_library_def load_books_def parse_def and_then_def)

lemma load_books_type_error:
  "fst (new_library (Some (JSON (PInt 5)))) = Inl TypeError \<and>
   fst (new_library (Some (JSON (PList [PInt 1])))) = Inl TypeError \<and>
   fst (new_library (Some (JSON (PDict [(lit ''books'', PList [])])))) = Inl TypeError"
  by (simp add: new_library_def load_books_def parse_def and_then_def load_record_def)

text \<open>
  Claim C3, amended. If the file exists and \<^verbatim>\<open>json.load\<close> raises \<^verbatim>\<open>JSONDecodeError\<close>
  on it (the file can be read as UTF-8 text and the text is no JSON document), or
  \<^verbatim>\<open>json.load\<close> decodes it to an array of objects of which at least one lacks
  \<^verbatim>\<open>title\<close>, \<^verbatim>\<open>author\<close> or \<^verbatim>\<open>isbn\<close>, then the load gives the empty catalogue, raises
  nothing and leaves the file as it is. If \<^verbatim>\<open>json.load\<close> decodes the file to an array of
  objects that all have the three keys, it is loaded record by record, whatever the
  values under the keys are. Nothing is said here of a file on which reading or decoding
  raises another exception, nor of a document that is no array of objects.
\<close>

theorem load_books_malformed:
  "new_library (Some NotJSON) = (Inr (), \<lparr>books = [], backing = Some NotJSON\<rparr>) \<and>
   (list_all is_dict ds \<and> \<not> list_all has_keys ds \<longrightarrow>
      new_library (Some (JSON (PList ds))) =
        (Inr (), \<lparr>books = [], backing = Some (JSON (PList ds))\<rparr>)) \<and>
   (list_all has_keys ds \<longrightarrow>
      new_library (Some (JSON (PList ds))) =
        (Inr (), \<lparr>books = map record_of ds, backing = Some (JSON (PList ds))\<rparr>))"
  by (simp add: new_library_NotJSON)
     (simp add: new_library_def load_books_def parse_def and_then_def
        load_records_lacks_key load_records_has_keys)

theorem load_books_malformed_witness:
  "new_library (Some NotJSON) = (Inr (), \<lparr>books = [], backing = Some NotJSON\<rparr>) \<and>
   new_library (Some (JSON (PList
       [PDict [(lit ''title'', PStr (lit ''Test'')), (lit ''author'', PStr (lit ''Test''))]])))
     = (Inr (),
        \<lparr>books = [],
         backing = Some (JSON (PList [PDict [(lit ''title'', PStr (lit ''Test'')),
                                             (lit ''author'', PStr (lit ''Test''))]]))\<rparr>) \<and>
   new_library (Some (JSON (PList
       [PDict [(lit ''title'', PStr (lit ''Dune'')), (lit ''author'', PStr (lit ''Frank Herbert'')),
               (lit ''isbn'', PStr (lit ''9780441172719''))]])))
     = (Inr (),
        \<lparr>books = [\<lparr>title = PStr (lit ''Dune''), author = PStr (lit ''Frank Herbert''),
                   isbn = PStr (lit ''9780441172719'')\<rparr>],
         backing = Some (JSON (PList
           [PDict [(lit ''title'', PStr (lit ''Dune'')),
                   (lit ''author'', PStr (lit ''Frank Herbert'')),
                   (lit ''isbn'', PStr (lit ''9780441172719''))]]))\<rparr>)"
  using
    load_books_malformed
      [of "[PDict [(lit ''title'', PStr (lit ''Test'')), (lit ''author'', PStr (lit ''Test''))]]"]
    load_books_malformed
      [of "[PDict [(lit ''title'', PStr (lit ''Dune'')), (lit ''author'', PStr (lit ''Frank Herbert'')),
                   (lit ''isbn'', PStr (lit ''9780441172719''))]]"]
  by (simp add: record_of_def Book_def)

section \<open>Lookup: the book is not found\<close>

text \<open>
  Claim C7. When the catalogue has no record with the ISBN (so that the request is made)
  and the remote service answers the book request with status 404, \<open>add_book_by_isbn\<close>
  raises the \<open>ValueError\<close> "not found" that carries the requested ISBN, and the
  catalogue is as before: no record is added and the file is not written.
\<close>

theorem add_book_by_isbn_not_found:
  "\<forall>b\<in>set (books lib). isbn b \<noteq> PStr i \<Longrightarrow> book_get r i = Response 404 body \<Longrightarrow>
   add_book_by_isbn d r lib i = (Inl (ValueError (NotFound i)), lib)"
  by (simp add: add_book_by_isbn_def fetch_def find_book_None_iff)

theorem add_book_by_isbn_not_found_witness:
  "find_book [dune] (PStr (lit ''0000000000'')) = None \<and>
   book_get no_such_book (lit ''0000000000'') = Response 404 NotJSON \<and>
   add_book_by_isbn Writable no_such_book \<lparr>books = [dune], backing = Some (dump [dune])\<rparr>
       (lit ''0000000000'') =
     (Inl (ValueError (NotFound (lit ''0000000000''))),
      \<lparr>books = [dune], backing = Some (dump [dune])\<rparr>)"
proof -
  have a: "\<forall>b\<in>set (books \<lparr>books = [dune], backing = Some (dump [dune])\<rparr>).
       isbn b \<noteq> PStr (lit ''0000000000'')"
    by (simp add: dune_def Book_def)
  then have f: "find_book [dune] (PStr (lit ''0000000000'')) = None"
    by (simp add: find_book_None_iff)
  have b: "book_get no_such_book (lit ''0000000000'') = Response 404 NotJSON"
    by (simp add: no_such_book_def)
  from add_book_by_isbn_not_found [OF a b] f b show ?thesis by simp
qed

section \<open>A save that fails\<close>

lemma in_step_backing:
  assumes "new_library (backing lib) = (Inr (), lib)" and "cs \<noteq> books lib"
  shows "backing lib \<noteq> Some (JSON (spec_array cs))"
proof
  assume "backing lib = Some (JSON (spec_array cs))"
  with assms(1)
  have "(Inr (), \<lparr>books = cs, backing = Some (JSON (spec_array cs))\<rparr>) = (Inr (), lib)"
    by (simp add: new_library_spec_array)
  then have "lib = \<lparr>books = cs, backing = Some (JSON (spec_array cs))\<rparr>" by simp
  then have "books lib = cs" by simp
  with assms(2) show False by simp
qed

lemma find_book_append_new:
  "\<forall>x\<in>set bs. isbn x \<noteq> isbn b \<Longrightarrow> find_book (bs @ [b]) (isbn b) = Some b"
  by (induction bs) simp_all

lemma remove_first_neq: "\<exists>x\<in>set bs. isbn x = k \<Longrightarrow> remove_first k bs \<noteq> bs"
  using length_remove_first [of bs k] by (metis n_not_Suc_n)

lemma save_books_file_fails:
  assumes "d = OpenFails \<or> d = WriteFails \<and> list_all text_fields (books lib)"
  shows "save_books d lib =
           (Inl IOError, lib\<lparr>backing := (if d = OpenFails then backing lib else Some NotJSON)\<rparr>)"
  using assms save_books_text(2) [of lib] by (auto simp: save_books_OpenFails)

text \<open>
  Claim C10, as stated, does not hold in its last clause: after a failed save the
  sequence in memory need not differ from the content of the file. In a catalogue loaded
  from a file with two records, a \<open>remove_book\<close> that fails to save leaves the record
  removed in memory and still in the file; an \<open>add_book\<close> of that record that fails to
  save again raises \<open>IOError\<close> and leaves in memory exactly the sequence the file holds.
\<close>

theorem failed_add_agrees_with_file:
  "new_library (Some (JSON (spec_array [dune, orwell]))) =
     (Inr (), \<lparr>books = [dune, orwell], backing = Some (JSON (spec_array [dune, orwell]))\<rparr>) \<and>
   remove_book OpenFails
       \<lparr>books = [dune, orwell], backing = Some (JSON (spec_array [dune, orwell]))\<rparr>
       (PStr (lit ''9780451524935'')) =
     (Inl IOError, \<lparr>books = [dune], backing = Some (JSON (spec_array [dune, orwell]))\<rparr>) \<and>
   find_book [dune] (PStr (lit ''9780451524935'')) = None \<and>
   add_book OpenFails \<lparr>books = [dune], backing = Some (JSON (spec_array [dune, orwell]))\<rparr>
       orwell =
     (Inl IOError, \<lparr>books = [dune, orwell], backing = Some (JSON (spec_array [dune, orwell]))\<rparr>)"
proof -
  have p: "\<exists>b\<in>set (books \<lparr>books = [dune, orwell],
      backing = Some (JSON (spec_array [dune, orwell]))\<rparr>). isbn b = PStr (lit ''9780451524935'')"
    by simp
  show ?thesis
    by (simp add: new_library_spec_array remove_book_present [OF p] save_books_OpenFails
        add_book_def)
qed

text \<open>
  Claim C10, amended. For every catalogue: if \<open>add_book\<close> of a book with a new string
  ISBN, or \<open>remove_book\<close> of a stored string ISBN, fails because the file cannot be
  written (\<open>open\<close> raises; or the write raises after the file was opened, the records
  to be written having fields that are strings UTF-8 can encode), then \<open>IOError\<close>
  reaches the caller after \<^verbatim>\<open>self.books\<close> was changed, and nothing undoes the change:
  \<open>list_books\<close> and \<open>find_book\<close> see the new sequence. The file holds what it held
  before (\<open>open\<close> raised) or an unfinished document. If the file agreed with the
  catalogue before the call (loading it gave the catalogue), it does not hold the new
  sequence afterwards; without that, nothing is said about how the two compare.
\<close>

theorem save_failure_keeps_mutation:
  "(isbn b = PStr i \<and> (\<forall>x\<in>set (books lib). isbn x \<noteq> PStr i) \<and>
    (d = OpenFails \<or> d = WriteFails \<and> list_all text_fields (books lib @ [b])) \<longrightarrow>
      fst (add_book d lib b) = Inl IOError \<and>
      list_books (snd (add_book d lib b)) = books lib @ [b] \<and>
      find_book (books (snd (add_book d lib b))) (PStr i) = Some b \<and>
      backing (snd (add_book d lib b)) = (if d = OpenFails then backing lib else Some NotJSON) \<and>
      (new_library (backing lib) = (Inr (), lib) \<longrightarrow>
         backing (snd (add_book d lib b)) \<noteq> Some (JSON (spec_array (books lib @ [b]))))) \<and>
   ((\<exists>x\<in>set (books lib). isbn x = PStr k) \<and>
    (d = OpenFails \<or> d = WriteFails \<and> list_all text_fields (remove_first (PStr k) (books lib))) \<longrightarrow>
      fst (remove_book d lib (PStr k)) = Inl IOError \<and>
      list_books (snd (remove_book d lib (PStr k))) = remove_first (PStr k) (books lib) \<and>
      length (books lib) = Suc (length (list_books (snd (remove_book d lib (PStr k))))) \<and>
      (unique_isbns (books lib) \<longrightarrow>
         find_book (books (snd (remove_book d lib (PStr k)))) (PStr k) = None) \<and>
      backing (snd (remove_book d lib (PStr k))) =
        (if d = OpenFails then backing lib else Some NotJSON) \<and>
      (new_library (backing lib) = (Inr (), lib) \<longrightarrow>
         backing (snd (remove_book d lib (PStr k))) \<noteq>
           Some (JSON (spec_array (remove_first (PStr k) (books lib))))))"
proof (intro conjI impI)
  assume h: "isbn b = PStr i \<and> (\<forall>x\<in>set (books lib). isbn x \<noteq> PStr i) \<and>
    (d = OpenFails \<or> d = WriteFails \<and> list_all text_fields (books lib @ [b]))"
  let ?new = "lib\<lparr>books := books lib @ [b]\<rparr>"
  from h have i: "isbn b = PStr i" and new: "\<forall>x\<in>set (books lib). isbn x \<noteq> isbn b"
    by simp_all
  from h have "d = OpenFails \<or> d = WriteFails \<and> list_all text_fields (books ?new)" by simp
  from save_books_file_fails [OF this] new
  have a: "add_book d lib b =
      (Inl IOError, ?new\<lparr>backing := (if d = OpenFails then backing lib else Some NotJSON)\<rparr>)"
    by (simp add: add_book_def find_book_None_iff)
  show "fst (add_book d lib b) = Inl IOError" by (simp add: a)
  show "list_books (snd (add_book d lib b)) = books lib @ [b]"
    by (simp add: a list_books_def)
  from new show "find_book (books (snd (add_book d lib b))) (PStr i) = Some b"
    using find_book_append_new [of "books lib" b] by (simp add: a i)
  show "backing (snd (add_book d lib b)) = (if d = OpenFails then backing lib else Some NotJSON)"
    by (simp add: a)
  assume "new_library (backing lib) = (Inr (), lib)"
  then have "backing lib \<noteq> Some (JSON (spec_array (books lib @ [b])))"
    by (rule in_step_backing) simp
  then show "backing (snd (add_book d lib b)) \<noteq> Some (JSON (spec_array (books lib @ [b])))"
    by (simp add: a)
next
  assume h: "(\<exists>x\<in>set (books lib). isbn x = PStr k) \<and>
    (d = OpenFails \<or> d = WriteFails \<and> list_all text_fields (remove_first (PStr k) (books lib)))"
  let ?new = "lib\<lparr>books := remove_first (PStr k) (books lib)\<rparr>"
  from h have p: "\<exists>x\<in>set (books lib). isbn x = PStr k" by simp
  from h have "d = OpenFails \<or> d = WriteFails \<and> list_all text_fields (books ?new)" by simp
  from save_books_file_fails [OF this]
  have a: "remove_book d lib (PStr k) =
      (Inl IOError, ?new\<lparr>backing := (if d = OpenFails then backing lib else Some NotJSON)\<rparr>)"
    by (simp add: remove_book_present [OF p])
  show "fst (remove_book d lib (PStr k)) = Inl IOError" by (simp add: a)
  show "list_books (snd (remove_book d lib (PStr k))) = remove_first (PStr k) (books lib)"
    by (simp add: a list_books_def)
  from p show "length (books lib) = Suc (length (list_books (snd (remove_book d lib (PStr k)))))"
    by (simp add: a list_books_def length_remove_first)
  show "backing (snd (remove_book d lib (PStr k))) =
      (if d = OpenFails then backing lib else Some NotJSON)"
    by (simp add: a)
  {
    assume "unique_isbns (books lib)"
    then show "find_book (books (snd (remove_book d lib (PStr k)))) (PStr k) = None"
      by (simp add: a find_book_remove_first unique_isbns_def)
  }
  assume "new_library (backing lib) = (Inr (), lib)"
  moreover from p have "remove_first (PStr k) (books lib) \<noteq> books lib"
    by (rule remove_first_neq)
  ultimately have "backing lib \<noteq> Some (JSON (spec_array (remove_first (PStr k) (books lib))))"
    by (rule in_step_backing)
  then show "backing (snd (remove_book d lib (PStr k))) \<noteq>
      Some (JSON (spec_array (remove_first (PStr k) (books lib))))"
    by (simp add: a)
qed

theorem save_failure_keeps_mutation_witness:
  "new_library (Some (JSON (spec_array [dune]))) =
     (Inr (), \<lparr>books = [dune], backing = Some (JSON (spec_array [dune]))\<rparr>) \<and>
   add_book OpenFails \<lparr>books = [dune], backing = Some (JSON (spec_array [dune]))\<rparr> orwell =
     (Inl IOError, \<lparr>books = [dune, orwell], backing = Some (JSON (spec_array [dune]))\<rparr>) \<and>
   find_book [dune, orwell] (PStr (lit ''9780451524935'')) = Some orwell \<and>
   remove_book WriteFails \<lparr>books = [dune], backing = Some (JSON (spec_array [dune]))\<rparr>
       (PStr (lit ''9780441172719'')) =
     (Inl IOError, \<lparr>books = [], backing = Some NotJSON\<rparr>) \<and>
   find_book [] (PStr (lit ''9780441172719'')) = None \<and>
   spec_array [dune] \<noteq> spec_array [dune, orwell]"
proof -
  let ?lib = "\<lparr>books = [dune], backing = Some (JSON (spec_array [dune]))\<rparr>"
  let ?io = "lit ''9780451524935''"
  let ?id = "lit ''9780441172719''"
  have n: "new_library (Some (JSON (spec_array [dune]))) = (Inr (), ?lib)"
    by (simp add: new_library_spec_array)
  then have n': "new_library (backing ?lib) = (Inr (), ?lib)" by simp
  have ha: "isbn orwell = PStr ?io \<and> (\<forall>x\<in>set (books ?lib). isbn x \<noteq> PStr ?io) \<and>
    (OpenFails = OpenFails \<or> OpenFails = WriteFails \<and> list_all text_fields (books ?lib @ [orwell]))"
    by simp
  have hr: "(\<exists>x\<in>set (books ?lib). isbn x = PStr ?id) \<and>
    (WriteFails = OpenFails \<or>
     WriteFails = WriteFails \<and> list_all text_fields (remove_first (PStr ?id) (books ?lib)))"
    by simp
  have u: "unique_isbns (books ?lib)" by (simp add: unique_isbns_def)
  note ta = save_failure_keeps_mutation
    [where d = OpenFails and lib = ?lib and b = orwell and i = ?io, THEN conjunct1, THEN mp, OF ha]
  note tr = save_failure_keeps_mutation
    [where d = WriteFails and lib = ?lib and k = ?id, THEN conjunct2, THEN mp, OF hr]
  from ta have a1: "fst (add_book OpenFails ?lib orwell) = Inl IOError"
    and a4: "find_book (books (snd (add_book OpenFails ?lib orwell))) (PStr ?io) = Some orwell"
    by blast+
  from ta have a2: "books (snd (add_book OpenFails ?lib orwell)) = [dune, orwell]"
    and a3: "backing (snd (add_book OpenFails ?lib orwell)) = Some (JSON (spec_array [dune]))"
    by (simp_all add: list_books_def)
  from ta n' have a5: "backing (snd (add_book OpenFails ?lib orwell)) \<noteq>
      Some (JSON (spec_array (books ?lib @ [orwell])))"
    by blast
  from tr have r1: "fst (remove_book WriteFails ?lib (PStr ?id)) = Inl IOError"
    by blast
  from tr have r2: "books (snd (remove_book WriteFails ?lib (PStr ?id))) = []"
    and r3: "backing (snd (remove_book WriteFails ?lib (PStr ?id))) = Some NotJSON"
    by (simp_all add: list_books_def)
  from tr u have r4:
    "find_book (books (snd (remove_book WriteFails ?lib (PStr ?id)))) (PStr ?id) = None"
    by blast
  from a1 a2 a3 have a: "add_book OpenFails ?lib orwell =
      (Inl IOError, \<lparr>books = [dune, orwell], backing = Some (JSON (spec_array [dune]))\<rparr>)"
    by (cases "add_book OpenFails ?lib orwell") simp
  from r1 r2 r3 have r: "remove_book WriteFails ?lib (PStr ?id) =
      (Inl IOError, \<lparr>books = [], backing = Some NotJSON\<rparr>)"
    by (cases "remove_book WriteFails ?lib (PStr ?id)") simp
  from a4 a2 have f: "find_book [dune, orwell] (PStr ?io) = Some orwell" by simp
  from r4 r2 have g: "find_book [] (PStr ?id) = None" by simp
  from a5 a3 have x: "spec_array [dune] \<noteq> spec_array [dune, orwell]" by simp
  from n a f r g x show ?thesis by (intro conjI)
qed

section \<open>Lookup: the author requests\<close>

lemma collect_skip:
  "map_of kvs (lit ''key'') = Some k \<Longrightarrow> author_get r k = Response s body \<Longrightarrow> s \<noteq> 200 \<Longrightarrow>
   collect r acc (PDict kvs # refs) = collect r acc refs"
  by simp

lemma collect_raise:
  "map_of kvs (lit ''key'') = Some k \<Longrightarrow> author_get r k = Raises e \<Longrightarrow>
   collect r acc (PDict kvs # refs) = Inl e"
  by simp

lemma collect_append:
  "collect r acc (xs @ ys) =
     (case collect r acc xs of Inl e \<Rightarrow> Inl e | Inr acc' \<Rightarrow> collect r acc' ys)"
proof (induction xs arbitrary: acc)
  case Nil
  show ?case by simp
next
  case (Cons x xs)
  show ?case
    by (simp add: Cons.IH split: pyval.splits option.splits reply.splits sum.splits)
qed

lemma collect_same_answers:
  "author_get r = author_get r' \<Longrightarrow> collect r acc refs = collect r' acc refs"
proof (induction refs arbitrary: acc)
  case Nil
  show ?case by simp
next
  case (Cons x xs)
  then show ?case
    by (simp split: pyval.splits option.splits reply.splits sum.splits)
qed

lemma resolve_same_answers:
  "author_get r = author_get r' \<Longrightarrow> resolve r i v = resolve r' i v"
proof -
  assume "author_get r = author_get r'"
  then have "collect r = collect r'"
    by (intro ext) (rule collect_same_answers)
  then show ?thesis by (cases v) (simp_all cong: option.case_cong)
qed

lemma collect_names:
  "collect r acc refs = Inr ns \<Longrightarrow> ns = acc @ spec_display_names r refs"
proof (induction refs arbitrary: acc)
  case Nil
  then show ?case by (simp add: spec_display_names_def)
next
  case (Cons x xs)
  show ?case
  proof (cases "\<exists>kvs k. x = PDict kvs \<and> map_of kvs (lit ''key'') = Some k")
    case False
    then have "collect r acc (x # xs) = collect r acc xs" and "spec_author_name r x = []"
      by (auto simp: spec_author_name_def split: pyval.splits option.splits)
    with Cons show ?thesis by (simp add: spec_display_names_def)
  next
    case True
    then obtain kvs k where x: "x = PDict kvs" "map_of kvs (lit ''key'') = Some k" by blast
    show ?thesis
    proof (cases "author_get r k")
      case (Raises e)
      with x Cons.prems show ?thesis by simp
    next
      case (Response s body)
      show ?thesis
      proof (cases "s = 200")
        case False
        with x Response have "collect r acc (x # xs) = collect r acc xs"
          and "spec_author_name r x = []"
          by (simp_all add: spec_author_name_def split: content.splits pyval.splits)
        with Cons show ?thesis by (simp add: spec_display_names_def)
      next
        case True
        with x Response Cons.prems obtain akvs where b: "body = JSON (PDict akvs)"
          by (cases body; cases "case body of JSON v \<Rightarrow> v")
             (auto simp: parse_def and_then_def)
        define n where "n = (case map_of akvs (lit ''name'') of None \<Rightarrow> PStr (lit ''Unknown Author'')
                             | Some n \<Rightarrow> n)"
        from x Response True b have c: "collect r acc (x # xs) = collect r (acc @ [n]) xs"
          by (simp add: parse_def and_then_def n_def split: option.splits)
        from x Response True b have a: "spec_author_name r x = [n]"
          by (simp add: spec_author_name_def n_def)
        from c Cons.prems have "collect r (acc @ [n]) xs = Inr ns" by simp
        then have "ns = (acc @ [n]) @ spec_display_names r xs" by (rule Cons.IH)
        with a show ?thesis by (simp add: spec_display_names_def)
      qed
    qed
  qed
qed

lemma collect_skip_inside:
  assumes "map_of kvs (lit ''key'') = Some k" and "author_get r k = Response s body" and "s \<noteq> 200"
  shows "collect r acc (pre @ PDict kvs # post) = collect r acc (pre @ post)"
proof -
  have "collect r acc (pre @ PDict kvs # post) =
          (case collect r acc pre of Inl e \<Rightarrow> Inl e | Inr a \<Rightarrow> collect r a (PDict kvs # post))"
    by (rule collect_append)
  also have "\<dots> = (case collect r acc pre of Inl e \<Rightarrow> Inl e | Inr a \<Rightarrow> collect r a post)"
    using assms by (cases "collect r acc pre") simp_all
  also have "\<dots> = collect r acc (pre @ post)"
    by (rule collect_append [symmetric])
  finally show ?thesis .
qed

lemma collect_raise_inside:
  assumes "map_of kvs (lit ''key'') = Some k" and "author_get r k = Raises e"
    and "collect r acc pre = Inr acc'"
  shows "collect r acc (pre @ PDict kvs # post) = Inl e"
  using assms by (simp add: collect_append)

lemma fetch_answering:
  "fetch (answering r i s kvs) i =
     (if s = 404 then Inl (ValueError (NotFound i))
      else if \<not> is_success s then Inl (HTTPStatusError s)
      else resolve r i (PDict kvs))"
proof -
  have "author_get (answering r i s kvs) = author_get r"
    by (simp add: answering_def)
  then have "resolve (answering r i s kvs) i (PDict kvs) = resolve r i (PDict kvs)"
    by (rule resolve_same_answers)
  then show ?thesis
    by (simp add: fetch_def answering_def parse_def and_then_def)
qed

text \<open>
  Claim C4, as stated, does not hold for a network error: a timeout of the author request
  is raised inside the same \<^verbatim>\<open>try\<close> block as one of the book request, so the lookup
  ends with the \<open>ConnectionError\<close> "timed out" and no book is added.
\<close>

theorem author_timeout_fails_lookup:
  "book_get author_timeout_remote (lit ''9780743273565'') = Response 200 (JSON gatsby_data) \<and>
   author_get author_timeout_remote (PStr (lit ''/authors/OL123A'')) = Raises TimeoutException \<and>
   add_book_by_isbn Writable author_timeout_remote \<lparr>books = [], backing = None\<rparr>
       (lit ''9780743273565'') =
     (Inl (ConnectionError TimedOut), \<lparr>books = [], backing = None\<rparr>)"
  by (simp add: author_timeout_remote_def gatsby_data_def add_book_by_isbn_def fetch_def
      is_success_def parse_def and_then_def)

text \<open>
  Claim C4, amended. For an entry of the author list that is an object with a \<^verbatim>\<open>key\<close>:
  if the follow-up request returns a status other than 200, the entry is skipped, with
  no placeholder for it, and the lookup goes on exactly as if the entry were not in the
  list, so it does not fail on account of it. If the follow-up request raises (a timeout,
  a connection failure), the error is not absorbed: provided the earlier entries were
  processed without an exception, the lookup ends with the exception the same error of the
  book request would give (a \<open>ConnectionError\<close> for a timeout or a connection failure)
  and the catalogue is unchanged.
\<close>

theorem author_follow_up_failure:
  assumes "book_get r i = Response s0 (JSON (PDict bkvs))"
    and "map_of bkvs (lit ''authors'') = Some (PList (pre @ PDict kvs # post))"
    and "map_of kvs (lit ''key'') = Some k"
  shows "(author_get r k = Response s body \<and> s \<noteq> 200 \<longrightarrow>
            collect r acc (pre @ PDict kvs # post) = collect r acc (pre @ post) \<and>
            add_book_by_isbn d r lib i =
              add_book_by_isbn d
                (answering r i s0 ((lit ''authors'', PList (pre @ post)) # bkvs)) lib i) \<and>
         (author_get r k = Raises e \<and> collect r [] pre = Inr acc' \<and> is_success s0 \<and>
          find_book (books lib) (PStr i) = None \<longrightarrow>
            add_book_by_isbn d r lib i = (Inl (translate i e), lib))"
proof (intro conjI impI)
  assume a: "author_get r k = Response s body \<and> s \<noteq> 200"
  with assms(3) show "collect r acc (pre @ PDict kvs # post) = collect r acc (pre @ post)"
    by (intro collect_skip_inside [of kvs k r s body]) simp_all
  from a assms(3) have "collect r [] (pre @ PDict kvs # post) = collect r [] (pre @ post)"
    by (intro collect_skip_inside [of kvs k r s body]) simp_all
  with assms(2)
  have "resolve r i (PDict bkvs) = resolve r i (PDict ((lit ''authors'', PList (pre @ post)) # bkvs))"
    by (simp add: and_then_def)
  with assms(1)
  have "fetch r i = fetch (answering r i s0 ((lit ''authors'', PList (pre @ post)) # bkvs)) i"
    by (simp add: fetch_answering) (simp add: fetch_def parse_def and_then_def)
  then show "add_book_by_isbn d r lib i =
      add_book_by_isbn d (answering r i s0 ((lit ''authors'', PList (pre @ post)) # bkvs)) lib i"
    by (simp add: add_book_by_isbn_def)
next
  assume b: "author_get r k = Raises e \<and> collect r [] pre = Inr acc' \<and> is_success s0 \<and>
          find_book (books lib) (PStr i) = None"
  with assms(3) have "collect r [] (pre @ PDict kvs # post) = Inl e"
    by (intro collect_raise_inside [of kvs k r e "[]" pre acc']) simp_all
  with assms(2) have "resolve r i (PDict bkvs) = Inl e"
    by (simp add: and_then_def split: option.splits)
  with assms(1) b have "fetch r i = Inl e"
    by (auto simp: fetch_def parse_def and_then_def is_success_def)
  with b show "add_book_by_isbn d r lib i = (Inl (translate i e), lib)"
    by (simp add: add_book_by_isbn_def)
qed

theorem author_follow_up_failure_witness:
  "add_book_by_isbn Writable author_missing_remote \<lparr>books = [], backing = None\<rparr>
       (lit ''9780743273565'') =
     (Inr (Book (PStr (lit ''The Great Gatsby'')) (PStr (lit ''Unknown Author'')) (PStr (lit ''9780743273565''))),
      \<lparr>books = [Book (PStr (lit ''The Great Gatsby'')) (PStr (lit ''Unknown Author''))
                 (PStr (lit ''9780743273565''))],
       backing = Some (dump [Book (PStr (lit ''The Great Gatsby'')) (PStr (lit ''Unknown Author''))
                 (PStr (lit ''9780743273565''))])\<rparr>) \<and>
   add_book_by_isbn OpenFails author_timeout_remote \<lparr>books = [], backing = None\<rparr>
       (lit ''9780743273565'') =
     (Inl (ConnectionError TimedOut), \<lparr>books = [], backing = None\<rparr>)"
proof -
  let ?i = "(lit ''9780743273565'')"
  let ?bkvs = "[(lit ''title'', PStr (lit ''The Great Gatsby'')),
                (lit ''authors'', PList [PDict [(lit ''key'', PStr (lit ''/authors/OL123A''))]])]"
  let ?kvs = "[(lit ''key'', PStr (lit ''/authors/OL123A''))]"
  let ?lib = "\<lparr>books = [], backing = None\<rparr>"
  have m1: "book_get author_missing_remote ?i = Response 200 (JSON (PDict ?bkvs))"
    by (simp add: author_missing_remote_def gatsby_data_def)
  have t1: "book_get author_timeout_remote ?i = Response 200 (JSON (PDict ?bkvs))"
    by (simp add: author_timeout_remote_def gatsby_data_def)
  have 2: "map_of ?bkvs (lit ''authors'') = Some (PList ([] @ PDict ?kvs # []))" by simp
  have 3: "map_of ?kvs (lit ''key'') = Some (PStr (lit ''/authors/OL123A''))" by simp
  have m4: "author_get author_missing_remote (PStr (lit ''/authors/OL123A'')) = Response 404 NotJSON
              \<and> (404::nat) \<noteq> 200"
    by (simp add: author_missing_remote_def)
  have t4: "author_get author_timeout_remote (PStr (lit ''/authors/OL123A'')) = Raises TimeoutException
              \<and> collect author_timeout_remote [] [] = Inr [] \<and> is_success 200 \<and>
              find_book (books ?lib) (PStr ?i) = None"
    by (simp add: author_timeout_remote_def is_success_def)
  from author_follow_up_failure
    [where s = 404 and body = NotJSON and d = Writable and lib = ?lib, OF m1 2 3] m4
  have "add_book_by_isbn Writable author_missing_remote ?lib ?i =
          add_book_by_isbn Writable
            (answering author_missing_remote ?i 200 ((lit ''authors'', PList ([] @ [])) # ?bkvs))
            ?lib ?i"
    by blast
  also have "\<dots> =
     (Inr (Book (PStr (lit ''The Great Gatsby'')) (PStr (lit ''Unknown Author'')) (PStr ?i)),
      \<lparr>books = [Book (PStr (lit ''The Great Gatsby'')) (PStr (lit ''Unknown Author'')) (PStr ?i)],
       backing = Some (dump [Book (PStr (lit ''The Great Gatsby'')) (PStr (lit ''Unknown Author''))
                 (PStr ?i)])\<rparr>)"
    by (simp add: add_book_by_isbn_def fetch_answering is_success_def and_then_def
        py_join_def add_book_def save_books_def encodes_def to_dict_def Book_def dump_def)
  finally have a: "add_book_by_isbn Writable author_missing_remote ?lib ?i =
     (Inr (Book (PStr (lit ''The Great Gatsby'')) (PStr (lit ''Unknown Author'')) (PStr ?i)),
      \<lparr>books = [Book (PStr (lit ''The Great Gatsby'')) (PStr (lit ''Unknown Author'')) (PStr ?i)],
       backing = Some (dump [Book (PStr (lit ''The Great Gatsby'')) (PStr (lit ''Unknown Author''))
                 (PStr ?i)])\<rparr>)" .
  from author_follow_up_failure
    [where e = TimeoutException and acc' = "[]" and lib = ?lib and d = OpenFails, OF t1 2 3]
    t4
  have b: "add_book_by_isbn OpenFails author_timeout_remote ?lib ?i =
     (Inl (ConnectionError TimedOut), ?lib)"
    by simp
  from a b show ?thesis by blast
qed

section \<open>Lookup: the resolved record\<close>

lemma join_spec_joined: "join (lit '', '') ss = spec_joined ss"
  by (induction "lit '', ''" ss rule: join.induct) simp_all

lemma py_join_Inr:
  assumes "py_join sep vs = Inr a"
  shows "\<exists>ss. vs = map PStr ss \<and> a = PStr (join sep ss)"
proof -
  from assms have s: "list_all is_str vs" and a: "a = PStr (join sep (map the_str vs))"
    by (auto simp: py_join_def split: if_splits)
  have "is_str v \<Longrightarrow> PStr (the_str v) = v" for v by (cases v) simp_all
  with s have "vs = map PStr (map the_str vs)"
    by (induction vs) simp_all
  with a show ?thesis by blast
qed

lemma spec_author_name_str [simp]: "spec_author_name r (PStr s) = []"
  by (simp add: spec_author_name_def)

lemma spec_display_names_strs [simp]: "spec_display_names r (map (\<lambda>x. PStr (f x)) xs) = []"
  by (induction xs) (simp_all add: spec_display_names_def)

lemma spec_display_names_iter:
  assumes "map_of kvs (lit ''authors'') = Some v" and "py_iter v = Inr refs"
  shows "spec_display_names r refs = spec_display_names r (spec_author_entries kvs)"
proof (cases v)
  case (PList xs)
  with assms show ?thesis by (simp add: spec_author_entries_def)
next
  case (PDict d)
  with assms have "refs = map (\<lambda>kv. PStr (fst kv)) d" by simp
  with PDict assms(1) show ?thesis
    by (simp add: spec_author_entries_def) (simp add: spec_display_names_def)
next
  case (PStr s)
  with assms have "refs = map (\<lambda>c. PStr [c]) s" by simp
  with PStr assms(1) show ?thesis
    by (simp add: spec_author_entries_def) (simp add: spec_display_names_def)
qed (use assms in simp_all)

lemma resolve_Inr:
  assumes "resolve r i (PDict kvs) = Inr b"
  shows "\<exists>names.
         title b = (case map_of kvs (lit ''title'') of
                      None \<Rightarrow> PStr (lit ''Unknown Title'') | Some t \<Rightarrow> t) \<and>
         spec_display_names r (spec_author_entries kvs) = map PStr names \<and>
         author b = PStr (if names = [] then lit ''Unknown Author'' else spec_joined names) \<and>
         isbn b = PStr i"
proof -
  define t where "t = (case map_of kvs (lit ''title'') of
                         None \<Rightarrow> PStr (lit ''Unknown Title'') | Some t \<Rightarrow> t)"
  define got where "got = (case map_of kvs (lit ''authors'') of
                 None \<Rightarrow> Inr []
               | Some refs \<Rightarrow> and_then (py_iter refs) (collect r []))"
  from assms have r: "and_then got (\<lambda>authors.
     and_then (py_join (lit '', '')
                 (if authors = [] then [PStr (lit ''Unknown Author'')] else authors))
       (\<lambda>a. Inr (Book t a (PStr i)))) = Inr b"
    by (simp add: and_then_def t_def got_def split: option.splits)
  then obtain authors where g: "got = Inr authors"
    by (cases got) (simp_all add: and_then_def)
  with r obtain a where
    j: "py_join (lit '', '')
          (if authors = [] then [PStr (lit ''Unknown Author'')] else authors) = Inr a"
    and b: "b = Book t a (PStr i)"
    by (cases "py_join (lit '', '')
                 (if authors = [] then [PStr (lit ''Unknown Author'')] else authors)")
       (auto simp: and_then_def)
  have n: "authors = spec_display_names r (spec_author_entries kvs)"
  proof (cases "map_of kvs (lit ''authors'')")
    case None
    with g show ?thesis
      by (simp add: got_def spec_author_entries_def spec_display_names_def)
  next
    case (Some v)
    with g obtain refs where i: "py_iter v = Inr refs" and c: "collect r [] refs = Inr authors"
      by (cases "py_iter v") (simp_all add: got_def and_then_def)
    from c have "authors = [] @ spec_display_names r refs" by (rule collect_names)
    with spec_display_names_iter [OF Some i, of r] show ?thesis by simp
  qed
  from py_join_Inr [OF j] obtain ss where
    ss: "(if authors = [] then [PStr (lit ''Unknown Author'')] else authors) = map PStr ss"
    and a: "a = PStr (join (lit '', '') ss)"
    by blast
  show ?thesis
  proof (cases "authors = []")
    case True
    with ss have "ss = [lit ''Unknown Author'']" by (cases ss) auto
    with a True n b show ?thesis
      by (intro exI [of _ "[]"]) (simp add: Book_def t_def)
  next
    case False
    with ss have m: "authors = map PStr ss" and "ss \<noteq> []" by auto
    with a n b show ?thesis
      by (intro exI [of _ ss]) (simp add: Book_def t_def join_spec_joined)
  qed
qed

lemma fetch_Inr:
  assumes "fetch r i = Inr b"
  shows "\<exists>s kvs. book_get r i = Response s (JSON (PDict kvs)) \<and> is_success s \<and>
           resolve r i (PDict kvs) = Inr b"
proof -
  from assms obtain s body where g: "book_get r i = Response s body"
    by (cases "book_get r i") (simp_all add: fetch_def)
  with assms have s: "is_success s" and p: "and_then (parse body) (resolve r i) = Inr b"
    by (simp_all add: fetch_def split: if_splits)
  from p obtain v where v: "body = JSON v" "resolve r i v = Inr b"
    by (cases body) (simp_all add: parse_def and_then_def)
  then obtain kvs where "v = PDict kvs"
    by (cases v) simp_all
  with g s v show ?thesis by blast
qed

lemma add_book_by_isbn_Inr:
  assumes "add_book_by_isbn d r lib i = (Inr b, lib')"
  shows "fetch r i = Inr b \<and> add_book d lib b = (Inr (), lib')"
proof -
  from assms have f: "find_book (books lib) (PStr i) = None"
    by (simp add: add_book_by_isbn_def split: if_splits)
  with assms obtain b' where b': "fetch r i = Inr b'"
    by (cases "fetch r i") (simp_all add: add_book_by_isbn_def)
  obtain res l where a: "add_book d lib b' = (res, l)"
    by (cases "add_book d lib b'")
  with assms f b' show ?thesis
    by (cases res) (simp_all add: add_book_by_isbn_def)
qed

text \<open>
  Claim C9. In a lookup that succeeds, the book response is a JSON object and the record
  returned has: as title the \<^verbatim>\<open>title\<close> of the response, or \<^verbatim>\<open>"Unknown Title"\<close> when the
  response has none; as author the collected author names, which are all strings, joined
  with \<^verbatim>\<open>", "\<close> (the first name, and each further name after a comma and a space), or
  the single default \<^verbatim>\<open>"Unknown Author"\<close> when no name was collected, as when the
  response has no author list or every entry was skipped; and the requested ISBN. Such
  lookups exist: for an ISBN that is not stored, a response with a 2xx status and no
  author list, a catalogue and a resolved record whose fields are strings that UTF-8 can
  encode, and a file that can be written, the lookup returns the record with the author
  \<^verbatim>\<open>"Unknown Author"\<close>, appended to the catalogue and saved.
\<close>

theorem add_book_by_isbn_fields:
  "(add_book_by_isbn d r lib i = (Inr b, lib') \<longrightarrow>
      (\<exists>s kvs names. book_get r i = Response s (JSON (PDict kvs)) \<and>
         title b = (case map_of kvs (lit ''title'') of
                      None \<Rightarrow> PStr (lit ''Unknown Title'') | Some t \<Rightarrow> t) \<and>
         spec_display_names r (spec_author_entries kvs) = map PStr names \<and>
         author b = PStr (if names = [] then lit ''Unknown Author'' else spec_joined names) \<and>
         isbn b = PStr i)) \<and>
   (find_book (books lib) (PStr i) = None \<and> book_get r i = Response s0 (JSON (PDict kvs0)) \<and>
    200 \<le> s0 \<and> s0 \<le> 299 \<and> map_of kvs0 (lit ''authors'') = None \<and>
    t0 = (case map_of kvs0 (lit ''title'') of
            None \<Rightarrow> PStr (lit ''Unknown Title'') | Some t \<Rightarrow> t) \<and>
    is_text t0 \<and> encodable i \<and> list_all text_fields (books lib) \<longrightarrow>
      add_book_by_isbn Writable r lib i =
        (Inr (Book t0 (PStr (lit ''Unknown Author'')) (PStr i)),
         \<lparr>books = books lib @ [Book t0 (PStr (lit ''Unknown Author'')) (PStr i)],
          backing = Some (JSON (spec_array
            (books lib @ [Book t0 (PStr (lit ''Unknown Author'')) (PStr i)])))\<rparr>))"
proof (intro conjI impI)
  assume "add_book_by_isbn d r lib i = (Inr b, lib')"
  then have "fetch r i = Inr b" by (simp add: add_book_by_isbn_Inr)
  then obtain s kvs where g: "book_get r i = Response s (JSON (PDict kvs))"
    and "resolve r i (PDict kvs) = Inr b"
    using fetch_Inr by blast
  with resolve_Inr [of r i kvs b]
  show "\<exists>s kvs names. book_get r i = Response s (JSON (PDict kvs)) \<and>
         title b = (case map_of kvs (lit ''title'') of
                      None \<Rightarrow> PStr (lit ''Unknown Title'') | Some t \<Rightarrow> t) \<and>
         spec_display_names r (spec_author_entries kvs) = map PStr names \<and>
         author b = PStr (if names = [] then lit ''Unknown Author'' else spec_joined names) \<and>
         isbn b = PStr i"
    by blast
next
  let ?b = "Book t0 (PStr (lit ''Unknown Author'')) (PStr i)"
  assume a: "find_book (books lib) (PStr i) = None \<and>
    book_get r i = Response s0 (JSON (PDict kvs0)) \<and>
    200 \<le> s0 \<and> s0 \<le> 299 \<and> map_of kvs0 (lit ''authors'') = None \<and>
    t0 = (case map_of kvs0 (lit ''title'') of
            None \<Rightarrow> PStr (lit ''Unknown Title'') | Some t \<Rightarrow> t) \<and>
    is_text t0 \<and> encodable i \<and> list_all text_fields (books lib)"
  then have "s0 \<noteq> 404" by simp
  with a have f: "fetch r i = Inr ?b"
    by (simp add: fetch_def is_success_def parse_def and_then_def py_join_def
        split: option.splits)
  from a have "is_text t0" and "encodable i" by blast+
  then have "text_fields ?b" by (simp add: text_fields_def Book_def)
  with a have "list_all text_fields (books (lib\<lparr>books := books lib @ [?b]\<rparr>))" by simp
  from save_books_text(1) [OF this] a
  have "add_book Writable lib ?b =
      (Inr (), \<lparr>books = books lib @ [?b],
                backing = Some (JSON (spec_array (books lib @ [?b])))\<rparr>)"
    by (simp add: add_book_def Book_def)
  with a f show "add_book_by_isbn Writable r lib i =
        (Inr ?b, \<lparr>books = books lib @ [?b],
                  backing = Some (JSON (spec_array (books lib @ [?b])))\<rparr>)"
    by (simp add: add_book_by_isbn_def)
qed

theorem add_book_by_isbn_fields_witness:
  "add_book_by_isbn Writable omens_remote \<lparr>books = [], backing = None\<rparr> (lit ''9780060853983'') =
     (Inr (Book (PStr (lit ''Good Omens'')) (PStr (lit ''Terry Pratchett, Neil Gaiman''))
             (PStr (lit ''9780060853983''))),
      \<lparr>books = [Book (PStr (lit ''Good Omens'')) (PStr (lit ''Terry Pratchett, Neil Gaiman''))
                 (PStr (lit ''9780060853983''))],
       backing = Some (JSON (PList
         [PDict [(lit ''title'', PStr (lit ''Good Omens'')),
                 (lit ''author'', PStr (lit ''Terry Pratchett, Neil Gaiman'')),
                 (lit ''isbn'', PStr (lit ''9780060853983''))]]))\<rparr>) \<and>
   spec_display_names omens_remote (spec_author_entries
       [(lit ''title'', PStr (lit ''Good Omens'')),
        (lit ''authors'', PList [PDict [(lit ''key'', PStr (lit ''/authors/OL1A''))],
                                PDict [(lit ''key'', PStr (lit ''/authors/OL2A''))]])]) =
     [PStr (lit ''Terry Pratchett''), PStr (lit ''Neil Gaiman'')] \<and>
   PStr (lit ''Terry Pratchett, Neil Gaiman'') =
     PStr (spec_joined [lit ''Terry Pratchett'', lit ''Neil Gaiman'']) \<and>
   add_book_by_isbn Writable
       (answering gatsby_remote (lit ''9780060853983'') 200 [(lit ''title'', PStr (lit ''Test Book''))])
       \<lparr>books = [dune], backing = None\<rparr> (lit ''9780060853983'') =
     (Inr (Book (PStr (lit ''Test Book'')) (PStr (lit ''Unknown Author''))
             (PStr (lit ''9780060853983''))),
      \<lparr>books = [dune, Book (PStr (lit ''Test Book'')) (PStr (lit ''Unknown Author''))
                       (PStr (lit ''9780060853983''))],
       backing = Some (JSON (PList
         [PDict [(lit ''title'', PStr (lit ''Dune'')), (lit ''author'', PStr (lit ''Frank Herbert'')),
                 (lit ''isbn'', PStr (lit ''9780441172719''))],
          PDict [(lit ''title'', PStr (lit ''Test Book'')),
                 (lit ''author'', PStr (lit ''Unknown Author'')),
                 (lit ''isbn'', PStr (lit ''9780060853983''))]]))\<rparr>)"
proof -
  let ?i = "lit ''9780060853983''"
  let ?lib = "\<lparr>books = [], backing = None\<rparr>"
  let ?b = "Book (PStr (lit ''Good Omens'')) (PStr (lit ''Terry Pratchett, Neil Gaiman'')) (PStr ?i)"
  let ?bkvs = "[(lit ''title'', PStr (lit ''Good Omens'')),
        (lit ''authors'', PList [PDict [(lit ''key'', PStr (lit ''/authors/OL1A''))],
                                PDict [(lit ''key'', PStr (lit ''/authors/OL2A''))]])]"
  let ?doc = "Some (JSON (PList
         [PDict [(lit ''title'', PStr (lit ''Good Omens'')),
                 (lit ''author'', PStr (lit ''Terry Pratchett, Neil Gaiman'')),
                 (lit ''isbn'', PStr (lit ''9780060853983''))]]))"
  let ?r = "answering gatsby_remote ?i 200 [(lit ''title'', PStr (lit ''Test Book''))]"
  let ?t = "Book (PStr (lit ''Test Book'')) (PStr (lit ''Unknown Author'')) (PStr ?i)"
  have g: "book_get omens_remote ?i = Response 200 (JSON (PDict ?bkvs))"
    by (simp add: omens_remote_def omens_data_def)
  have e: "add_book_by_isbn Writable omens_remote ?lib ?i = (Inr ?b, \<lparr>books = [?b], backing = ?doc\<rparr>)"
    by (simp add: add_book_by_isbn_def fetch_def omens_remote_def omens_data_def
        is_success_def parse_def and_then_def py_join_def lit_append add_book_def
        save_books_def encodes_def dump_def to_dict_def Book_def)
  have n: "spec_display_names omens_remote (spec_author_entries ?bkvs) =
      [PStr (lit ''Terry Pratchett''), PStr (lit ''Neil Gaiman'')]"
    by (simp add: spec_display_names_def spec_author_entries_def spec_author_name_def
        omens_remote_def)
  from add_book_by_isbn_fields
    [of Writable omens_remote ?lib ?i ?b "\<lparr>books = [?b], backing = ?doc\<rparr>"] e
  obtain s kvs names where k: "book_get omens_remote ?i = Response s (JSON (PDict kvs))"
    and m: "spec_display_names omens_remote (spec_author_entries kvs) = map PStr names"
    and a: "author ?b = PStr (if names = [] then lit ''Unknown Author'' else spec_joined names)"
    by blast
  from k g have "kvs = ?bkvs" by simp
  with m n have "map PStr names = [PStr (lit ''Terry Pratchett''), PStr (lit ''Neil Gaiman'')]"
    by simp
  then have "names = [lit ''Terry Pratchett'', lit ''Neil Gaiman'']"
    by (auto simp: map_eq_Cons_conv)
  with a have j: "PStr (lit ''Terry Pratchett, Neil Gaiman'') =
      PStr (spec_joined [lit ''Terry Pratchett'', lit ''Neil Gaiman''])"
    by (simp add: Book_def)
  have h: "find_book (books \<lparr>books = [dune], backing = None\<rparr>) (PStr ?i) = None \<and>
      book_get ?r ?i = Response 200 (JSON (PDict [(lit ''title'', PStr (lit ''Test Book''))])) \<and>
      (200::nat) \<le> 200 \<and> (200::nat) \<le> 299 \<and>
      map_of [(lit ''title'', PStr (lit ''Test Book''))] (lit ''authors'') = None \<and>
      PStr (lit ''Test Book'') =
        (case map_of [(lit ''title'', PStr (lit ''Test Book''))] (lit ''title'') of
            None \<Rightarrow> PStr (lit ''Unknown Title'') | Some t \<Rightarrow> t) \<and>
      is_text (PStr (lit ''Test Book'')) \<and> encodable ?i \<and>
      list_all text_fields (books \<lparr>books = [dune], backing = None\<rparr>)"
    by (simp add: answering_def)
  have s: "spec_array [dune, ?t] = PList
         [PDict [(lit ''title'', PStr (lit ''Dune'')), (lit ''author'', PStr (lit ''Frank Herbert'')),
                 (lit ''isbn'', PStr (lit ''9780441172719''))],
          PDict [(lit ''title'', PStr (lit ''Test Book'')),
                 (lit ''author'', PStr (lit ''Unknown Author'')),
                 (lit ''isbn'', PStr (lit ''9780060853983''))]]"
    by (simp add: spec_array_def dune_def Book_def)
  from add_book_by_isbn_fields
    [where r = ?r and lib = "\<lparr>books = [dune], backing = None\<rparr>" and i = ?i and ?s0.0 = 200
       and ?kvs0.0 = "[(lit ''title'', PStr (lit ''Test Book''))]"
       and ?t0.0 = "PStr (lit ''Test Book'')", THEN conjunct2, THEN mp, OF h]
  have t: "add_book_by_isbn Writable ?r \<lparr>books = [dune], backing = None\<rparr> ?i =
     (Inr ?t, \<lparr>books = [dune, ?t], backing = Some (JSON (spec_array [dune, ?t]))\<rparr>)"
    by simp
  from e n j t [unfolded s] show ?thesis by (intro conjI)
qed

section \<open>The copy returned by list\<close>

text \<open>
  A store that extends \<open>h\<close> by one list object at the next address and agrees with \<open>h\<close>
  below it.
\<close>

lemma set_items_fresh:
  assumes "length h' = Suc (length h)" and "take (length h) h' = h"
    and "\<exists>rs. h' ! length h = ListObj rs"
  shows "length (set_items h' (length h) rs') = Suc (length h) \<and>
         take (length h) (set_items h' (length h) rs') = h \<and>
         (\<exists>rs. set_items h' (length h) rs' ! length h = ListObj rs)"
  using assms by (auto simp: set_items_def)

lemma mutate_fresh:
  assumes "on_list m" and "length h' = Suc (length h)" and "take (length h) h' = h"
    and "\<exists>rs. h' ! length h = ListObj rs"
  shows "length (mutate (length h) h' m) = Suc (length h) \<and>
         take (length h) (mutate (length h) h' m) = h \<and>
         (\<exists>rs. mutate (length h) h' m ! length h = ListObj rs)"
proof (cases m)
  case Clear
  with set_items_fresh [OF assms(2-4)] show ?thesis by simp
next
  case (Append a)
  with set_items_fresh [OF assms(2-4)] show ?thesis by simp
next
  case (Pop n)
  with set_items_fresh [OF assms(2-4)] assms(2-4) show ?thesis by simp
next
  case (SetItem n a)
  with set_items_fresh [OF assms(2-4)] assms(2-4) show ?thesis by simp
qed (use assms(1) in simp_all)

lemma mutate_all_fresh:
  assumes "list_all on_list ms" and "length h' = Suc (length h)" and "take (length h) h' = h"
    and "\<exists>rs. h' ! length h = ListObj rs"
  shows "length (mutate_all (length h) h' ms) = Suc (length h) \<and>
         take (length h) (mutate_all (length h) h' ms) = h \<and>
         (\<exists>rs. mutate_all (length h) h' ms ! length h = ListObj rs)"
  using assms
proof (induction ms arbitrary: h')
  case Nil
  then show ?case by (simp add: mutate_all_def)
next
  case (Cons m ms)
  from Cons.prems have m: "on_list m" and ms: "list_all on_list ms" by simp_all
  from mutate_fresh [OF m Cons.prems(2-4)]
  have "length (mutate_all (length h) (mutate (length h) h' m) ms) = Suc (length h) \<and>
        take (length h) (mutate_all (length h) (mutate (length h) h' m) ms) = h \<and>
        (\<exists>rs. mutate_all (length h) (mutate (length h) h' m) ms ! length h = ListObj rs)"
    by (intro Cons.IH [OF ms]) blast+
  then show ?case by (simp add: mutate_all_def)
qed

lemma agree_below:
  assumes "length h' = Suc (length h)" and "take (length h) h' = h" and "a < length h"
  shows "h' ! a = h ! a"
proof -
  from assms(3) have "take (length h) h' ! a = h' ! a" by simp
  with assms(2) show ?thesis by simp
qed

lemma book_at_extended:
  assumes "length h' = Suc (length h)" and "take (length h) h' = h"
    and "\<exists>rs. h' ! length h = ListObj rs"
  shows "book_at h' a = book_at h a"
proof (cases "a < length h")
  case True
  with assms show ?thesis by (simp add: book_at_def agree_below)
next
  case False
  show ?thesis
  proof (cases "a = length h")
    case True
    with assms show ?thesis by (auto simp: book_at_def)
  next
    case False
    with \<open>\<not> a < length h\<close> assms(1) show ?thesis by (simp add: book_at_def)
  qed
qed

lemma items_extended:
  assumes "length h' = Suc (length h)" and "take (length h) h' = h" and "l < length h"
  shows "items h' l = items h l"
  using assms by (simp add: items_def agree_below)

lemma find_in_cong: "(\<And>a. book_at h' a = book_at h a) \<Longrightarrow> find_in h' as i = find_in h as i"
  by (induction as) (simp_all split: option.splits)

lemma catalogue_unchanged:
  assumes "length h' = Suc (length h)" and "take (length h) h' = h"
    and "\<exists>rs. h' ! length h = ListObj rs" and "l < length h"
  shows "records h' l = records h l \<and> find_book_ref h' l i = find_book_ref h l i \<and>
         (\<forall>a. book_at h' a = book_at h a)"
proof -
  have b: "\<And>a. book_at h' a = book_at h a"
    using assms(1-3) by (rule book_at_extended)
  then have "book_at h' = book_at h" by (intro ext)
  moreover have "items h' l = items h l"
    using assms(1,2,4) by (rule items_extended)
  ultimately show ?thesis
    using b by (simp add: records_def find_book_ref_def find_in_cong [of h' h])
qed

text \<open>
  Claim C8, as stated, does not hold for the records: the copy is shallow. In the store
  \<open>one_book_store\<close>, assigning a new ISBN to the first record of the list returned by
  \<open>list_books_ref\<close> changes the record of the catalogue, and \<open>find_book_ref\<close> on the
  catalogue no longer finds the book under its ISBN.
\<close>

theorem returned_record_is_shared:
  "list_books_ref one_book_store 1 = (2, one_book_store @ [ListObj [0]]) \<and>
   records one_book_store 1 = [dune] \<and>
   find_book_ref one_book_store 1 (PStr (lit ''9780441172719'')) = Some 0 \<and>
   \<not> on_list (SetIsbn 0 (PStr (lit ''0''))) \<and>
   records (mutate 2 (one_book_store @ [ListObj [0]]) (SetIsbn 0 (PStr (lit ''0'')))) 1 =
     [dune\<lparr>isbn := PStr (lit ''0'')\<rparr>] \<and>
   records (mutate 2 (one_book_store @ [ListObj [0]]) (SetIsbn 0 (PStr (lit ''0'')))) 1 \<noteq>
     records one_book_store 1 \<and>
   find_book_ref (mutate 2 (one_book_store @ [ListObj [0]]) (SetIsbn 0 (PStr (lit ''0'')))) 1
     (PStr (lit ''9780441172719'')) = None"
  by (simp add: one_book_store_def list_books_ref_def alloc_def items_def records_def
      book_at_def find_book_ref_def update_book_def dune_def Book_def)

text \<open>
  Claim C8, amended. \<open>list_books_ref\<close> returns a new list object that shows the records
  of the catalogue in their order. Whatever the caller then does to that list itself
  (clearing it, appending, popping, replacing an item), in any number of steps, the
  catalogue is unchanged: its list shows the same records, \<open>find_book_ref\<close> returns what
  it returned before, every \<^verbatim>\<open>Book\<close> object is as it was, and a further listing shows
  the same records again. The records are shared with the catalogue and not copied, so
  this does not extend to assignments to the fields of a returned record.
\<close>

theorem list_books_copy_independent:
  assumes "l < length h" and "list_books_ref h l = (x, h')" and "list_all on_list ms"
  shows "x \<noteq> l \<and> records h' x = records h l \<and>
         records (mutate_all x h' ms) l = records h l \<and>
         find_book_ref (mutate_all x h' ms) l i = find_book_ref h l i \<and>
         (\<forall>a. book_at (mutate_all x h' ms) a = book_at h a) \<and>
         records (snd (list_books_ref (mutate_all x h' ms) l))
                 (fst (list_books_ref (mutate_all x h' ms) l)) = records h l"
proof -
  from assms(2) have x: "x = length h" and h': "h' = h @ [ListObj (items h l)]"
    by (simp_all add: list_books_ref_def alloc_def)
  from h' have e: "length h' = Suc (length h)" "take (length h) h' = h"
    "\<exists>rs. h' ! length h = ListObj rs"
    by simp_all
  have c0: "records h' l = records h l \<and> find_book_ref h' l i = find_book_ref h l i \<and>
         (\<forall>a. book_at h' a = book_at h a)"
    using e assms(1) by (rule catalogue_unchanged)
  have "items h' x = items h l"
    by (simp add: x h' items_def)
  moreover from c0 have "book_at h' = book_at h" by (intro ext) simp
  ultimately have copy: "records h' x = records h l"
    by (simp add: records_def)
  define h'' where "h'' = mutate_all x h' ms"
  from mutate_all_fresh [OF assms(3) e]
  have f: "length h'' = Suc (length h)" "take (length h) h'' = h"
    "\<exists>rs. h'' ! length h = ListObj rs"
    by (simp_all add: h''_def x)
  have c: "records h'' l = records h l \<and> find_book_ref h'' l i = find_book_ref h l i \<and>
         (\<forall>a. book_at h'' a = book_at h a)"
    using f assms(1) by (rule catalogue_unchanged)
  define h3 where "h3 = h'' @ [ListObj (items h'' l)]"
  have l'': "l < length h''" using f(1) assms(1) by simp
  have g: "length h3 = Suc (length h'')" "take (length h'') h3 = h''"
    "\<exists>rs. h3 ! length h'' = ListObj rs"
    by (simp_all add: h3_def)
  have "records h3 l = records h'' l \<and> find_book_ref h3 l i = find_book_ref h'' l i \<and>
         (\<forall>a. book_at h3 a = book_at h'' a)"
    using g l'' by (rule catalogue_unchanged)
  then have "book_at h3 = book_at h''" by (intro ext) simp
  moreover have "items h3 (length h'') = items h'' l"
    by (simp add: h3_def items_def)
  ultimately have "records h3 (length h'') = records h'' l"
    by (simp add: records_def)
  with c have again: "records (snd (list_books_ref h'' l)) (fst (list_books_ref h'' l)) =
      records h l"
    by (simp add: list_books_ref_def alloc_def h3_def)
  from assms(1) x have "x \<noteq> l" by simp
  with copy c again show ?thesis
    unfolding h''_def by blast
qed

theorem list_books_copy_independent_witness:
  "(1::nat) < length one_book_store \<and>
   list_books_ref one_book_store 1 = (2, one_book_store @ [ListObj [0]]) \<and>
   list_all on_list [Append 0, SetItem 0 1, Pop 1, Clear] \<and>
   records (one_book_store @ [ListObj [0]]) 2 = [dune] \<and>
   records (mutate_all 2 (one_book_store @ [ListObj [0]]) [Append 0, SetItem 0 1, Pop 1, Clear]) 2
     = [] \<and>
   records (mutate_all 2 (one_book_store @ [ListObj [0]]) [Append 0, SetItem 0 1, Pop 1, Clear]) 1
     = [dune] \<and>
   find_book_ref
     (mutate_all 2 (one_book_store @ [ListObj [0]]) [Append 0, SetItem 0 1, Pop 1, Clear]) 1
     (PStr (lit ''9780441172719'')) = Some 0"
proof -
  let ?ms = "[Append 0, SetItem 0 1, Pop 1, Clear]"
  let ?h' = "one_book_store @ [ListObj [0]]"
  have a: "(1::nat) < length one_book_store" by (simp add: one_book_store_def)
  have b: "list_books_ref one_book_store 1 = (2, ?h')"
    by (simp add: one_book_store_def list_books_ref_def alloc_def items_def)
  have c: "list_all on_list ?ms" by simp
  have r: "records one_book_store 1 = [dune]"
    by (simp add: one_book_store_def records_def items_def book_at_def)
  have f: "find_book_ref one_book_store 1 (PStr (lit ''9780441172719'')) = Some 0"
    by (simp add: one_book_store_def find_book_ref_def items_def book_at_def dune_def Book_def)
  have e: "records (mutate_all 2 ?h' ?ms) 2 = []"
    by (simp add: one_book_store_def mutate_all_def set_items_def items_def records_def
        pop_def)
  note t = list_books_copy_independent [OF a b c, of "PStr (lit ''9780441172719'')"]
  from t r have 1: "records ?h' 2 = [dune]" by simp
  from t r have 2: "records (mutate_all 2 ?h' ?ms) 1 = [dune]" by simp
  from t f have 3: "find_book_ref (mutate_all 2 ?h' ?ms) 1 (PStr (lit ''9780441172719'')) = Some 0"
    by simp
  from a b c 1 e 2 3 show ?thesis by blast
qed

end
